theory Spec2Isabelle
  imports Main "HOL-Library.Sublist"
begin

section \<open>JavaScript strings\<close>

text \<open>
  A JavaScript string is a sequence of UTF-16 code units. A code unit is modelled as a
  natural number, a string as the list of its code units; \<open>str\<close> turns an ASCII
  literal into such a list. Regular expressions without the \<open>u\<close> flag, \<open>split\<close>,
  \<open>startsWith\<close>, \<open>includes\<close> and \<open>===\<close> all work on code units.
\<close>

type_synonym jsstring = "nat list"

definition str :: "string \<Rightarrow> jsstring" where
  "str s = map of_char s"

text \<open>
  The class \<open>\s\<close> of a regular expression, which is also the set \<open>trim\<close> removes:
  tab, line feed, vertical tab, form feed, carriage return, space, no-break space,
  U+1680, U+2000 to U+200A, U+2028, U+2029, U+202F, U+205F, U+3000 and U+FEFF.
\<close>

definition is_space :: "nat \<Rightarrow> bool" where
  "is_space c = (c = 9 \<or> c = 10 \<or> c = 11 \<or> c = 12 \<or> c = 13 \<or> c = 32 \<or> c = 160
     \<or> c = 5760 \<or> (8192 \<le> c \<and> c \<le> 8202) \<or> c = 8232 \<or> c = 8233 \<or> c = 8239
     \<or> c = 8287 \<or> c = 12288 \<or> c = 65279)"

definition trim :: "jsstring \<Rightarrow> jsstring" where
  "trim s = rev (dropWhile is_space (rev (dropWhile is_space s)))"

text \<open>
  \<open>String.prototype.toLowerCase\<close> is the runtime's, with the whole Unicode case
  mapping behind it. The functions below take it as the parameter \<open>lc\<close>. What is
  used of it: on a string of ASCII code units it lowers the letters A to Z and changes
  nothing else. \<open>asciiLower\<close> is the instance used at concrete inputs.
\<close>

definition lower_unit :: "nat \<Rightarrow> nat" where
  "lower_unit c = (if 65 \<le> c \<and> c \<le> 90 then c + 32 else c)"

definition asciiLower :: "jsstring \<Rightarrow> jsstring" where
  "asciiLower s = map lower_unit s"

definition is_ascii :: "nat \<Rightarrow> bool" where
  "is_ascii c = (c < 128)"

definition js_toLowerCase :: "(jsstring \<Rightarrow> jsstring) \<Rightarrow> bool" where
  "js_toLowerCase lc = (\<forall>s. list_all is_ascii s \<longrightarrow> lc s = asciiLower s)"

section \<open>Text normalizer\<close>

subsection \<open>toKebabCase\<close>

text \<open>
  \<^verbatim>\<open>str.toLowerCase().replace(/\s+/g, "-").replace(/[^a-z0-9-]/g, "")\<close>
  (the same body in both scripts; the first one only wraps it in a promise).
\<close>

text \<open>\<open>replace(/\s+/g, "-")\<close>: every maximal run of white space becomes one hyphen.\<close>

function replace_spaces :: "jsstring \<Rightarrow> jsstring" where
  "replace_spaces [] = []"
| "replace_spaces (c # cs) =
     (if is_space c then 45 # replace_spaces (dropWhile is_space cs)
      else c # replace_spaces cs)"
  by pat_completeness auto
termination
  by (relation "measure length") (auto simp: less_Suc_eq_le length_dropWhile_le)

text \<open>The class \<open>[a-z0-9-]\<close>.\<close>

definition slug_unit :: "nat \<Rightarrow> bool" where
  "slug_unit c = ((97 \<le> c \<and> c \<le> 122) \<or> (48 \<le> c \<and> c \<le> 57) \<or> c = 45)"

definition toKebabCase :: "(jsstring \<Rightarrow> jsstring) \<Rightarrow> jsstring \<Rightarrow> jsstring" where
  "toKebabCase lc s = filter slug_unit (replace_spaces (lc s))"

text \<open>A string matches \<open>/^[a-z0-9-]*$/\<close> when each of its code units is in the class.\<close>

fun matches_slug_regex :: "jsstring \<Rightarrow> bool" where
  "matches_slug_regex [] = True"
| "matches_slug_regex (c # cs) = (slug_unit c \<and> matches_slug_regex cs)"

subsection \<open>String helpers\<close>

definition startsWith :: "jsstring \<Rightarrow> jsstring \<Rightarrow> bool" where
  "startsWith s p = (take (length p) s = p)"

fun js_includes :: "jsstring \<Rightarrow> jsstring \<Rightarrow> bool" where
  "js_includes [] p = (p = [])"
| "js_includes (c # cs) p = (startsWith (c # cs) p \<or> js_includes cs p)"

text \<open>\<open>s.split(d)\<close> for a separator of one code unit; the result is never empty.\<close>

fun split_on :: "nat \<Rightarrow> jsstring \<Rightarrow> jsstring list" where
  "split_on d [] = [[]]"
| "split_on d (c # cs) =
     (if c = d then [] # split_on d cs
      else (case split_on d cs of
              [] \<Rightarrow> [[c]]
            | x # xs \<Rightarrow> (c # x) # xs))"

text \<open>
  \<open>s.replace(/p/g, r)\<close> for a pattern \<open>p\<close> that is a literal string: the matches are
  found from left to right and do not overlap.
\<close>

function replaceAll :: "jsstring \<Rightarrow> jsstring \<Rightarrow> jsstring \<Rightarrow> jsstring" where
  "replaceAll p r [] = []"
| "replaceAll p r (c # cs) =
     (if p \<noteq> [] \<and> startsWith (c # cs) p
      then r @ replaceAll p r (drop (length p) (c # cs))
      else c # replaceAll p r cs)"
  by pat_completeness auto
termination
proof (relation "measure (\<lambda>(p, r, s). length s)")
  show "wf (measure (\<lambda>(p, r, s). length s))"
    by simp
next
  fix p r :: jsstring and c cs
  assume "p \<noteq> [] \<and> startsWith (c # cs) p"
  then have "0 < length p"
    by simp
  then show "((p, r, drop (length p) (c # cs)), p, r, c # cs) \<in> measure (\<lambda>(p, r, s). length s)"
    by simp
next
  fix p r :: jsstring and c cs
  show "((p, r, cs), p, r, c # cs) \<in> measure (\<lambda>(p, r, s). length s)"
    by simp
qed

subsection \<open>htmlToText\<close>

text \<open>
  \<^verbatim>\<open>html.replace(/<[^>]+>/g, "").replace(/&nbsp;/g, " ").replace(/&lt;/g, "<")
      .replace(/&gt;/g, ">").replace(/&quot;/g, '"').replace(/&#39;/g, "'")
      .replace(/&amp;/g, "&").trim()\<close>

  The pattern \<open><[^>]+>\<close> matches at a \<open><\<close> (code unit 60) that is followed by one or more
  code units other than \<open>>\<close> (62) and then a \<open>>\<close>. \<open>tag_end cs\<close> is what follows the
  match, when the text after the \<open><\<close> is \<open>cs\<close>.
\<close>

definition tag_end :: "jsstring \<Rightarrow> jsstring option" where
  "tag_end cs =
     (case dropWhile (\<lambda>x. x \<noteq> 62) cs of
        [] \<Rightarrow> None
      | g # rest \<Rightarrow> if takeWhile (\<lambda>x. x \<noteq> 62) cs = [] then None else Some rest)"

lemma tag_end_length: "tag_end cs = Some rest \<Longrightarrow> length rest < length cs"
proof -
  assume "tag_end cs = Some rest"
  then obtain g where "dropWhile (\<lambda>x. x \<noteq> 62) cs = g # rest"
    by (auto simp: tag_end_def split: list.splits if_splits)
  moreover have "length (dropWhile (\<lambda>x. x \<noteq> 62) cs) \<le> length cs"
    by (rule length_dropWhile_le)
  ultimately show ?thesis
    by simp
qed

function stripTags :: "jsstring \<Rightarrow> jsstring" where
  "stripTags [] = []"
| "stripTags (c # cs) =
     (if c = 60 then
        (case tag_end cs of
           Some rest \<Rightarrow> stripTags rest
         | None \<Rightarrow> c # stripTags cs)
      else c # stripTags cs)"
  by pat_completeness auto
termination
proof (relation "measure length")
  show "wf (measure (length :: jsstring \<Rightarrow> nat))"
    by simp
next
  fix c :: nat and cs rest
  assume "tag_end cs = Some rest"
  then have "length rest < length cs"
    by (rule tag_end_length)
  then show "(rest, c # cs) \<in> measure length"
    by simp
next
  fix c :: nat and cs
  show "(cs, c # cs) \<in> measure length"
    by simp
next
  fix c :: nat and cs
  show "(cs, c # cs) \<in> measure length"
    by simp
qed

definition htmlToText :: "jsstring \<Rightarrow> jsstring" where
  "htmlToText html =
     trim (replaceAll (str ''&amp;'') (str ''&'')
          (replaceAll (str ''&#39;'') [39]
          (replaceAll (str ''&quot;'') [34]
          (replaceAll (str ''&gt;'') (str ''>'')
          (replaceAll (str ''&lt;'') (str ''<'')
          (replaceAll (str ''&nbsp;'') (str '' '')
          (stripTags html)))))))"

text \<open>
  Vocabulary for the claim about tags. \<open>has_tag s\<close>: the pattern \<open><[^>]+>\<close> matches
  somewhere in \<open>s\<close>. \<open>no_entity s\<close>: none of the six entities the function decodes
  occurs in \<open>s\<close>.
\<close>

fun has_tag :: "jsstring \<Rightarrow> bool" where
  "has_tag [] = False"
| "has_tag (c # cs) = ((c = 60 \<and> tag_end cs \<noteq> None) \<or> has_tag cs)"

definition entities :: "jsstring list" where
  "entities = [str ''&nbsp;'', str ''&lt;'', str ''&gt;'', str ''&quot;'', str ''&#39;'',
               str ''&amp;'']"

definition no_entity :: "jsstring \<Rightarrow> bool" where
  "no_entity s = list_all (\<lambda>e. \<not> js_includes s e) entities"

section \<open>Paths\<close>

text \<open>
  \<open>path.join\<close> is Node's, in its POSIX form (the layout the specification gives uses
  \<open>/\<close>): the non-empty arguments are joined with \<open>/\<close> (47) and the result is normalized.
  Normalizing drops empty segments and \<open>.\<close> segments and resolves \<open>..\<close> against the
  segment before it; a relative path that climbs above its start keeps the \<open>..\<close>.
\<close>

fun join_slash :: "jsstring list \<Rightarrow> jsstring" where
  "join_slash [] = []"
| "join_slash [x] = x"
| "join_slash (x # y # ys) = x @ 47 # join_slash (y # ys)"

fun normalize_segments :: "bool \<Rightarrow> jsstring list \<Rightarrow> jsstring list \<Rightarrow> jsstring list" where
  "normalize_segments allowAboveRoot acc [] = rev acc"
| "normalize_segments allowAboveRoot acc (s # ss) =
     (if s = [] \<or> s = [46] then normalize_segments allowAboveRoot acc ss
      else if s = [46, 46] then
        (case acc of
           [] \<Rightarrow> normalize_segments allowAboveRoot (if allowAboveRoot then [s] else []) ss
         | t # ts \<Rightarrow>
             if t = [46, 46]
             then normalize_segments allowAboveRoot (if allowAboveRoot then s # acc else acc) ss
             else normalize_segments allowAboveRoot ts ss)
      else normalize_segments allowAboveRoot (s # acc) ss)"

definition path_normalize :: "jsstring \<Rightarrow> jsstring" where
  "path_normalize p =
     (if p = [] then [46]
      else
        (let isAbsolute = (hd p = 47);
             trailingSeparator = (last p = 47);
             q = join_slash (normalize_segments (\<not> isAbsolute) [] (split_on 47 p))
         in if q = [] then (if isAbsolute then [47] else if trailingSeparator then [46, 47] else [46])
            else (if isAbsolute then [47] else []) @ q @ (if trailingSeparator then [47] else [])))"

definition path_join :: "jsstring list \<Rightarrow> jsstring" where
  "path_join args =
     (let parts = filter (\<lambda>a. a \<noteq> []) args
      in if parts = [] then [46] else path_normalize (join_slash parts))"

text \<open>A segment that normalizing leaves alone.\<close>

definition plain_segment :: "jsstring \<Rightarrow> bool" where
  "plain_segment s = (s \<noteq> [] \<and> 47 \<notin> set s \<and> s \<noteq> [46] \<and> s \<noteq> [46, 46])"

section \<open>Data model\<close>

record CodeSnippet =
  lang :: jsstring
  langSlug :: jsstring
  code :: jsstring

record ProblemDetails =
  content :: jsstring
  codeSnippets :: "CodeSnippet list"
  difficulty :: jsstring
  questionId :: jsstring
  title :: jsstring
  titleSlug :: jsstring

record DailyChallenge =
  dc_questionId :: jsstring
  dc_title :: jsstring
  dc_titleSlug :: jsstring
  dc_difficulty :: jsstring

record FileOperationResult =
  created :: "jsstring list"
  updated :: "jsstring list"
  skipped :: "jsstring list"

text \<open>
  \<open>CONFIG.LANGUAGE_EXTENSIONS\<close> and \<open>CONFIG.COMMENT_STYLES\<close>, in the order of the object
  literals, which is the order \<open>Object.entries\<close> walks them in. The first script has
  the same two tables as local constants.
\<close>

definition LANGUAGE_EXTENSIONS :: "(jsstring \<times> jsstring) list" where
  "LANGUAGE_EXTENSIONS =
     [(str ''python'', str ''py''), (str ''typescript'', str ''ts''),
      (str ''javascript'', str ''js''), (str ''java'', str ''java''),
      (str ''cpp'', str ''cpp''), (str ''c'', str ''c''), (str ''csharp'', str ''cs''),
      (str ''dart'', str ''dart''), (str ''php'', str ''php''), (str ''go'', str ''go''),
      (str ''rust'', str ''rs''), (str ''ruby'', str ''rb''), (str ''swift'', str ''swift''),
      (str ''kotlin'', str ''kt'')]"

definition COMMENT_STYLES :: "(jsstring \<times> jsstring \<times> jsstring) list" where
  "COMMENT_STYLES =
     [(str ''python'', [34, 34, 34], [34, 34, 34]),
      (str ''typescript'', str ''/*'', str ''*/''), (str ''javascript'', str ''/*'', str ''*/''),
      (str ''java'', str ''/*'', str ''*/''), (str ''cpp'', str ''/*'', str ''*/''),
      (str ''c'', str ''/*'', str ''*/''), (str ''csharp'', str ''/*'', str ''*/''),
      (str ''dart'', str ''/*'', str ''*/''), (str ''php'', str ''/*'', str ''*/''),
      (str ''go'', str ''/*'', str ''*/''), (str ''rust'', str ''/*'', str ''*/''),
      (str ''ruby'', str ''=begin'', str ''=end''), (str ''swift'', str ''/*'', str ''*/''),
      (str ''kotlin'', str ''/*'', str ''*/'')]"

section \<open>File contents and file names\<close>

text \<open>
  \<open>formatProblemFile\<close>: the comment delimiters of the language (\<open>/*\<close> and \<open>*/\<close> for a
  language that is not in the table), the problem statement as plain text between them,
  a blank line, the code. Both scripts build the same string.
\<close>

definition formatProblemFile :: "jsstring \<Rightarrow> jsstring \<Rightarrow> jsstring \<Rightarrow> jsstring" where
  "formatProblemFile language problemContent code' =
     (case (case map_of COMMENT_STYLES language of
              Some style \<Rightarrow> style
            | None \<Rightarrow> (str ''/*'', str ''*/'')) of
        (start, end') \<Rightarrow>
          start @ [10] @ htmlToText problemContent @ [10] @ end' @ [10, 10] @ code')"

text \<open>
  \<open>FileManager.getFileName\<close>. The extension is looked up in the table; a template
  literal prints a missing entry as \<open>undefined\<close>. 45 is the hyphen, 95 the underscore.
\<close>

definition getFileName :: "jsstring \<Rightarrow> ProblemDetails \<Rightarrow> jsstring \<Rightarrow> jsstring" where
  "getFileName language details kebabTitle =
     (let extension = (case map_of LANGUAGE_EXTENSIONS language of
                         Some e \<Rightarrow> e
                       | None \<Rightarrow> str ''undefined'')
      in if language = str ''dart''
         then questionId details @ [95] @ map (\<lambda>c. if c = 45 then 95 else c) kebabTitle
                @ [46] @ extension
         else questionId details @ [45] @ kebabTitle @ [46] @ extension)"

text \<open>The file name of the first script, which takes the extension from the loop.\<close>

definition fileName_1 :: "ProblemDetails \<Rightarrow> jsstring \<Rightarrow> jsstring \<Rightarrow> jsstring \<Rightarrow> jsstring" where
  "fileName_1 details kebabTitle language extension =
     (if language = str ''dart''
      then questionId details @ [95] @ map (\<lambda>c. if c = 45 then 95 else c) kebabTitle
             @ [46] @ extension
      else (questionId details @ [45] @ kebabTitle) @ [46] @ extension)"

text \<open>The directory and the path of a language's file, as the loops compute them.\<close>

definition dirPathOf :: "(jsstring \<Rightarrow> jsstring) \<Rightarrow> ProblemDetails \<Rightarrow> jsstring \<Rightarrow> jsstring" where
  "dirPathOf lc details language = path_join [language, lc (difficulty details)]"

definition filePathOf :: "(jsstring \<Rightarrow> jsstring) \<Rightarrow> ProblemDetails \<Rightarrow> jsstring \<Rightarrow> jsstring" where
  "filePathOf lc details language =
     path_join [dirPathOf lc details language,
                getFileName language details (toKebabCase lc (title details))]"

text \<open>
  \<open>snippet?.code || ""\<close> for the first snippet whose \<open>langSlug\<close> is the language.
\<close>

definition snippetCode :: "ProblemDetails \<Rightarrow> jsstring \<Rightarrow> jsstring" where
  "snippetCode details language =
     (case find (\<lambda>s. langSlug s = language) (codeSnippets details) of
        None \<Rightarrow> []
      | Some snippet \<Rightarrow> if code snippet = [] then [] else code snippet)"

section \<open>Classifying an existing file\<close>

text \<open>
  The loop of \<open>FileManager.hasNonCommentContent\<close> over the lines of the file, with its
  flag \<open>inBlockComment\<close>. 34 is the double quote.
\<close>

fun scan_lines :: "bool \<Rightarrow> jsstring list \<Rightarrow> bool" where
  "scan_lines inBlockComment [] = False"
| "scan_lines inBlockComment (line # lines) =
     (let trimmed = trim line in
      if trimmed = [] then scan_lines inBlockComment lines
      else
        (let opened = (if js_includes trimmed (str ''/*'') then True else inBlockComment) in
         if opened
         then scan_lines (if js_includes trimmed (str ''*/'') then False else opened) lines
         else if startsWith trimmed (str ''//'') \<or> startsWith trimmed (str ''#'')
                 \<or> startsWith trimmed (str ''=begin'') \<or> startsWith trimmed (str ''=end'')
                 \<or> trimmed = [34, 34, 34]
         then scan_lines opened lines
         else True))"

text \<open>The test of the first script's \<open>hasContent\<close> on the text of the file.\<close>

definition nonCommentContent :: "jsstring \<Rightarrow> jsstring" where
  "nonCommentContent text =
     trim (concat (filter
       (\<lambda>line. \<not> startsWith (trim line) (str ''/*'')
               \<and> \<not> startsWith (trim line) (str ''*/'')
               \<and> \<not> startsWith (trim line) (str ''//'')
               \<and> length (trim line) > 0)
       (split_on 10 text)))"

section \<open>Effects\<close>

text \<open>
  The scripts talk to a web site, a browser, the file system and a child process. What
  these answer is the environment \<open>env\<close>, one field for each call that can fail:
  \<^item> \<open>csrfTokenMatch\<close>: the request for the home page and the match of the token in it
    (\<open>Inl\<close>: the request failed; \<open>Inr None\<close>: no token in the page);
  \<^item> \<open>questionOfToday\<close>: the answer to the query for the daily challenge;
  \<^item> \<open>questionContent\<close>, \<open>questionEditorData\<close>, \<open>questionData\<close>: the answers to the
    queries for one problem, which may differ from one fetch of the details to the next
    (the first argument counts the fetches);
  \<^item> the outcome of each call to the browser; \<open>evaluate\<close> is what the script run in the
    page returns, \<open>None\<close> for \<open>null\<close>;
  \<^item> \<open>unreadable\<close>, \<open>mkdir_fails\<close>, \<open>write_fails\<close>: the paths at which \<open>readFile\<close>,
    \<open>mkdir\<close> and \<open>writeFile\<close> fail (a file that exists at the check and is gone at the
    read is unreadable);
  \<^item> \<open>command_ok\<close>: the exit of the child process.
  A failed \<open>writeFile\<close> leaves the file as it was.
\<close>

datatype error = LeetCodeError string | Error string | Rejected string

record QuestionContent =
  qc_content :: jsstring
  qc_questionId :: jsstring
  qc_title :: jsstring
  qc_difficulty :: jsstring

record env =
  csrfTokenMatch :: "error + jsstring option"
  questionOfToday :: "error + DailyChallenge"
  questionContent :: "nat \<Rightarrow> jsstring \<Rightarrow> error + QuestionContent"
  questionEditorData :: "nat \<Rightarrow> jsstring \<Rightarrow> error + CodeSnippet list"
  questionData :: "nat \<Rightarrow> jsstring \<Rightarrow> error + QuestionContent"
  launch_ok :: bool
  newPage_ok :: bool
  setUserAgent_ok :: bool
  setViewport_ok :: bool
  goto_ok :: bool
  waitForSelector_ok :: bool
  evaluate :: "error + jsstring option"
  cookies_ok :: bool
  page_close_ok :: bool
  browser_close_ok :: bool
  unreadable :: "jsstring \<Rightarrow> bool"
  mkdir_fails :: "jsstring \<Rightarrow> bool"
  write_fails :: "jsstring \<Rightarrow> bool"
  command_ok :: bool

text \<open>
  The trace records the calls in the order they are made: \<open>Launch\<close>, \<open>NewPage\<close>,
  \<open>PageClose\<close>, \<open>BrowserClose\<close>, \<open>Mkdir\<close>, \<open>Command\<close> and the requests when the call
  is made, whatever its outcome; \<open>WriteFile\<close> when the file has been written;
  \<open>LogFileError\<close> when the handler of a loop logs the failure for a file. The other
  messages on the console are not recorded.
\<close>

datatype event =
    HttpGetHome
  | QueryOfToday
  | QueryContent jsstring
  | QueryEditorData jsstring
  | QueryData jsstring
  | Launch
  | NewPage
  | PageClose
  | BrowserClose
  | Access jsstring
  | ReadFile jsstring
  | Mkdir jsstring
  | WriteFile jsstring jsstring
  | LogFileError jsstring
  | Command jsstring

text \<open>
  The state: the files (path to text), the trace, the two fields the classes keep
  (\<open>GraphQLClient.csrfToken\<close>, and whether \<open>PuppeteerScraper.browser\<close> is set) and the
  number of fetches of problem details so far.
\<close>

record state =
  files :: "jsstring \<rightharpoonup> jsstring"
  trace :: "event list"
  csrfToken :: "jsstring option"
  browser :: bool
  fetches :: nat

text \<open>
  An asynchronous function is a function from the state to a result, \<open>Inl\<close> for a
  rejected promise or a thrown error, and the state after it. \<open>try_catch\<close> and
  \<open>try_finally\<close> are the two statements; an error thrown by a \<open>finally\<close> block replaces
  the outcome of the body.
\<close>

type_synonym 'a io = "state \<Rightarrow> (error + 'a) \<times> state"

definition io_return :: "'a \<Rightarrow> 'a io" where
  "io_return x s = (Inr x, s)"

definition io_throw :: "error \<Rightarrow> 'a io" where
  "io_throw e s = (Inl e, s)"

definition io_bind :: "'a io \<Rightarrow> ('a \<Rightarrow> 'b io) \<Rightarrow> 'b io" where
  "io_bind m f s = (case m s of (Inl e, s') \<Rightarrow> (Inl e, s') | (Inr x, s') \<Rightarrow> f x s')"

definition try_catch :: "'a io \<Rightarrow> (error \<Rightarrow> 'a io) \<Rightarrow> 'a io" where
  "try_catch m h s = (case m s of (Inl e, s') \<Rightarrow> h e s' | (Inr x, s') \<Rightarrow> (Inr x, s'))"

definition try_finally :: "'a io \<Rightarrow> unit io \<Rightarrow> 'a io" where
  "try_finally m fin s =
     (case m s of (r, s') \<Rightarrow>
        (case fin s' of (Inl e, s'') \<Rightarrow> (Inl e, s'') | (Inr u, s'') \<Rightarrow> (r, s'')))"

definition emit :: "event \<Rightarrow> unit io" where
  "emit e s = (Inr (), s\<lparr>trace := trace s @ [e]\<rparr>)"

definition step :: "bool \<Rightarrow> string \<Rightarrow> unit io" where
  "step ok msg = (if ok then io_return () else io_throw (Rejected msg))"

definition call :: "event \<Rightarrow> bool \<Rightarrow> string \<Rightarrow> unit io" where
  "call e ok msg = io_bind (emit e) (\<lambda>_. step ok msg)"

text \<open>
  \<open>Promise.all\<close>: every request is started, and the first failure is the failure of
  the whole.
\<close>

definition promise_all2 :: "'a io \<Rightarrow> 'b io \<Rightarrow> ('a \<times> 'b) io" where
  "promise_all2 p q s =
     (case p s of (r1, s1) \<Rightarrow>
        (case q s1 of (r2, s2) \<Rightarrow>
           (case r1 of
              Inl e \<Rightarrow> (Inl e, s2)
            | Inr x \<Rightarrow> (case r2 of Inl e \<Rightarrow> (Inl e, s2) | Inr y \<Rightarrow> (Inr (x, y), s2)))))"

definition promise_all3 :: "'a io \<Rightarrow> 'b io \<Rightarrow> 'c io \<Rightarrow> ('a \<times> 'b \<times> 'c) io" where
  "promise_all3 p q r = promise_all2 p (promise_all2 q r)"

subsection \<open>File system\<close>

definition fs_access :: "jsstring \<Rightarrow> unit io" where
  "fs_access p =
     io_bind (emit (Access p))
       (\<lambda>_ s. if files s p \<noteq> None then (Inr (), s) else (Inl (Rejected ''ENOENT''), s))"

definition fs_readFile :: "env \<Rightarrow> jsstring \<Rightarrow> jsstring io" where
  "fs_readFile env p =
     io_bind (emit (ReadFile p))
       (\<lambda>_ s. if unreadable env p then (Inl (Rejected ''EACCES''), s)
              else (case files s p of
                      None \<Rightarrow> (Inl (Rejected ''ENOENT''), s)
                    | Some text \<Rightarrow> (Inr text, s)))"

definition fs_mkdir :: "env \<Rightarrow> jsstring \<Rightarrow> unit io" where
  "fs_mkdir env d = call (Mkdir d) (\<not> mkdir_fails env d) ''mkdir''"

definition fs_writeFile :: "env \<Rightarrow> jsstring \<Rightarrow> jsstring \<Rightarrow> unit io" where
  "fs_writeFile env p text =
     (if write_fails env p then io_throw (Rejected ''writeFile'')
      else io_bind (emit (WriteFile p text))
             (\<lambda>_ s. (Inr (), s\<lparr>files := (files s)(p \<mapsto> text)\<rparr>)))"

section \<open>The second script: classes\<close>

subsection \<open>FileManager\<close>

definition hasNonCommentContent :: "env \<Rightarrow> jsstring \<Rightarrow> bool io" where
  "hasNonCommentContent env filePath =
     try_catch
       (io_bind (fs_readFile env filePath)
          (\<lambda>text. io_return (scan_lines False (split_on 10 text))))
       (\<lambda>_. io_return False)"

text \<open>
  The body of the loop of \<open>FileManager.createSolutionFiles\<close> for one language; the
  result lists are the ones the loop has built so far.
\<close>

definition createSolutionFile ::
  "(jsstring \<Rightarrow> jsstring) \<Rightarrow> env \<Rightarrow> ProblemDetails \<Rightarrow> jsstring \<Rightarrow> jsstring
     \<Rightarrow> FileOperationResult \<Rightarrow> FileOperationResult io" where
  "createSolutionFile lc env details kebabTitle language result =
     (let dirPath = path_join [language, lc (difficulty details)];
          fileName = getFileName language details kebabTitle;
          filePath = path_join [dirPath, fileName]
      in try_catch
           (io_bind (try_catch (io_bind (fs_access filePath) (\<lambda>_. io_return True))
                               (\<lambda>_. io_return False))
              (\<lambda>fileExists.
                 io_bind (if fileExists then hasNonCommentContent env filePath
                          else io_return False)
                   (\<lambda>hasContent.
                      if fileExists \<and> hasContent
                      then io_return (result\<lparr>skipped := skipped result @ [filePath]\<rparr>)
                      else
                        io_bind (fs_mkdir env dirPath)
                          (\<lambda>_. io_bind (fs_writeFile env filePath
                                            (formatProblemFile language (content details)
                                               (snippetCode details language)))
                                  (\<lambda>_. if fileExists
                                        then io_return
                                               (result\<lparr>updated := updated result @ [filePath]\<rparr>)
                                        else io_return
                                               (result\<lparr>created := created result @ [filePath]\<rparr>))))))
           (\<lambda>error. io_bind (emit (LogFileError filePath)) (\<lambda>_. io_return result)))"

fun createSolutionFiles_loop ::
  "(jsstring \<Rightarrow> jsstring) \<Rightarrow> env \<Rightarrow> ProblemDetails \<Rightarrow> jsstring \<Rightarrow> (jsstring \<times> jsstring) list
     \<Rightarrow> FileOperationResult \<Rightarrow> FileOperationResult io" where
  "createSolutionFiles_loop lc env details kebabTitle [] result = io_return result"
| "createSolutionFiles_loop lc env details kebabTitle ((language, extension) # entries) result =
     io_bind (createSolutionFile lc env details kebabTitle language result)
       (createSolutionFiles_loop lc env details kebabTitle entries)"

definition createSolutionFiles ::
  "(jsstring \<Rightarrow> jsstring) \<Rightarrow> env \<Rightarrow> ProblemDetails \<Rightarrow> FileOperationResult io" where
  "createSolutionFiles lc env details =
     createSolutionFiles_loop lc env details (toKebabCase lc (title details)) LANGUAGE_EXTENSIONS
       \<lparr>created = [], updated = [], skipped = []\<rparr>"

subsection \<open>GraphQLClient\<close>

definition GraphQLClient_initialize :: "env \<Rightarrow> unit io" where
  "GraphQLClient_initialize env =
     try_catch
       (io_bind (emit HttpGetHome)
          (\<lambda>_. case csrfTokenMatch env of
                  Inl e \<Rightarrow> io_throw e
                | Inr None \<Rightarrow> io_throw (LeetCodeError ''CSRF token not found in response'')
                | Inr (Some token) \<Rightarrow> (\<lambda>s. (Inr (), s\<lparr>csrfToken := Some token\<rparr>))))
       (\<lambda>error. io_throw (LeetCodeError ''Failed to fetch CSRF token''))"

text \<open>One request to the query endpoint: the event names the query, the answer is the
  environment's.\<close>

definition GraphQLClient_query :: "event \<Rightarrow> error + 'a \<Rightarrow> 'a io" where
  "GraphQLClient_query q response =
     io_bind (emit q)
       (\<lambda>_. case response of Inl e \<Rightarrow> io_throw e | Inr data \<Rightarrow> io_return data)"

subsection \<open>PuppeteerScraper\<close>

definition PuppeteerScraper_initialize :: "env \<Rightarrow> unit io" where
  "PuppeteerScraper_initialize env =
     io_bind (call Launch (launch_ok env) ''puppeteer.launch'')
       (\<lambda>_ s. (Inr (), s\<lparr>browser := True\<rparr>))"

definition PuppeteerScraper_getDailyChallenge :: "env \<Rightarrow> jsstring io" where
  "PuppeteerScraper_getDailyChallenge env s =
     (if \<not> browser s then io_throw (LeetCodeError ''Browser not initialized'') s
      else
        io_bind (call NewPage (newPage_ok env) ''browser.newPage'')
          (\<lambda>_. try_finally
                  (io_bind (step (setUserAgent_ok env) ''page.setUserAgent'')
                     (\<lambda>_. io_bind (step (setViewport_ok env) ''page.setViewport'')
                     (\<lambda>_. io_bind (step (goto_ok env) ''page.goto'')
                     (\<lambda>_. io_bind (step (waitForSelector_ok env) ''page.waitForSelector'')
                     (\<lambda>_. case evaluate env of
                             Inl e \<Rightarrow> io_throw e
                           | Inr None \<Rightarrow>
                               io_throw (LeetCodeError ''Failed to extract daily challenge slug'')
                           | Inr (Some slug) \<Rightarrow>
                               if slug = []
                               then io_throw
                                      (LeetCodeError ''Failed to extract daily challenge slug'')
                               else io_return slug)))))
                  (call PageClose (page_close_ok env) ''page.close'')) s)"

definition PuppeteerScraper_cleanup :: "env \<Rightarrow> unit io" where
  "PuppeteerScraper_cleanup env s =
     (if browser s
      then io_bind (call BrowserClose (browser_close_ok env) ''browser.close'')
             (\<lambda>_ s'. (Inr (), s'\<lparr>browser := False\<rparr>)) s
      else (Inr (), s))"

subsection \<open>LeetCodeDailyChallenge\<close>

definition next_fetch :: "nat io" where
  "next_fetch s = (Inr (fetches s), s\<lparr>fetches := fetches s + 1\<rparr>)"

definition getDailyChallengeViaAPI :: "env \<Rightarrow> DailyChallenge io" where
  "getDailyChallengeViaAPI env =
     io_bind (GraphQLClient_initialize env)
       (\<lambda>_. GraphQLClient_query QueryOfToday (questionOfToday env))"

definition getProblemDetails :: "env \<Rightarrow> jsstring \<Rightarrow> ProblemDetails io" where
  "getProblemDetails env slug =
     io_bind next_fetch
       (\<lambda>k. io_bind
              (promise_all2
                 (GraphQLClient_query (QueryContent slug) (questionContent env k slug))
                 (GraphQLClient_query (QueryEditorData slug) (questionEditorData env k slug)))
              (\<lambda>(contentResponse, snippetsResponse).
                 io_return \<lparr>content = qc_content contentResponse,
                            codeSnippets = snippetsResponse,
                            difficulty = qc_difficulty contentResponse,
                            questionId = qc_questionId contentResponse,
                            title = qc_title contentResponse,
                            titleSlug = slug\<rparr>))"

definition getDailyChallengeViaPuppeteer :: "env \<Rightarrow> DailyChallenge io" where
  "getDailyChallengeViaPuppeteer env =
     try_finally
       (io_bind (PuppeteerScraper_initialize env)
          (\<lambda>_. io_bind (PuppeteerScraper_getDailyChallenge env)
          (\<lambda>slug. io_bind (getProblemDetails env slug)
          (\<lambda>details. io_return \<lparr>dc_questionId = questionId details,
                                  dc_title = title details,
                                  dc_titleSlug = titleSlug details,
                                  dc_difficulty = difficulty details\<rparr>))))
       (PuppeteerScraper_cleanup env)"

definition CommandExecutor_execute :: "env \<Rightarrow> jsstring \<Rightarrow> unit io" where
  "CommandExecutor_execute env slug = call (Command slug) (command_ok env) ''command''"

definition run :: "(jsstring \<Rightarrow> jsstring) \<Rightarrow> env \<Rightarrow> unit io" where
  "run lc env =
     try_catch
       (io_bind (try_catch (getDailyChallengeViaAPI env)
                           (\<lambda>apiError. getDailyChallengeViaPuppeteer env))
          (\<lambda>dailyChallenge.
             io_bind (getProblemDetails env (dc_titleSlug dailyChallenge))
          (\<lambda>problemDetails.
             io_bind (createSolutionFiles lc env problemDetails)
          (\<lambda>result.
             try_catch (CommandExecutor_execute env (dc_titleSlug dailyChallenge))
                       (\<lambda>cmdError. io_return ())))))
       (\<lambda>error. io_throw error)"

text \<open>
  The entry point: \<open>app.run().catch(\<dots> process.exit(1))\<close>. The value is the exit code
  of the process.
\<close>

definition main :: "(jsstring \<Rightarrow> jsstring) \<Rightarrow> env \<Rightarrow> state \<Rightarrow> nat \<times> state" where
  "main lc env s =
     (case run lc env s of
        (Inl error, s') \<Rightarrow> (1, s')
      | (Inr u, s') \<Rightarrow> (0, s'))"

section \<open>The first script: functions\<close>

definition fetchCsrfToken :: "env \<Rightarrow> jsstring io" where
  "fetchCsrfToken env =
     io_bind (emit HttpGetHome)
       (\<lambda>_. case csrfTokenMatch env of
               Inl e \<Rightarrow> io_throw e
             | Inr None \<Rightarrow> io_throw (Error ''CSRF token not found'')
             | Inr (Some token) \<Rightarrow> io_return token)"

text \<open>
  \<open>getDailyLeetcodeChallengeWithPuppeteer\<close>. The browser is launched and the page is
  opened before the \<open>try\<close>; the \<open>finally\<close> block closes the browser. The value is the
  slug (the cookies the function also returns are not used by its caller).
\<close>

definition getDailyLeetcodeChallengeWithPuppeteer :: "env \<Rightarrow> jsstring io" where
  "getDailyLeetcodeChallengeWithPuppeteer env =
     io_bind (call Launch (launch_ok env) ''puppeteer.launch'')
       (\<lambda>_. io_bind (call NewPage (newPage_ok env) ''browser.newPage'')
       (\<lambda>_. try_finally
               (io_bind (step (setUserAgent_ok env) ''page.setUserAgent'')
                  (\<lambda>_. io_bind (step (goto_ok env) ''page.goto'')
                  (\<lambda>_. io_bind (step (waitForSelector_ok env) ''page.waitForSelector'')
                  (\<lambda>_. case evaluate env of
                          Inl e \<Rightarrow> io_throw e
                        | Inr None \<Rightarrow> io_throw (Error ''Failed to extract daily challenge'')
                        | Inr (Some dailyChallenge) \<Rightarrow>
                            if dailyChallenge = []
                            then io_throw (Error ''Failed to extract daily challenge'')
                            else io_bind (step (cookies_ok env) ''page.cookies'')
                                   (\<lambda>_. io_return dailyChallenge)))))
               (call BrowserClose (browser_close_ok env) ''browser.close'')))"

definition hasContent :: "env \<Rightarrow> jsstring \<Rightarrow> bool io" where
  "hasContent env filePath =
     try_catch
       (io_bind (fs_readFile env filePath)
          (\<lambda>text. io_return (length (nonCommentContent text) > 0)))
       (\<lambda>_. io_return False)"

text \<open>
  The body of the loop of \<open>createSolutionFiles\<close>, the function the first script calls
  after the browser: a file is written only for a language that has a snippet.
\<close>

definition createSolutionFile_1 ::
  "(jsstring \<Rightarrow> jsstring) \<Rightarrow> env \<Rightarrow> ProblemDetails \<Rightarrow> jsstring \<Rightarrow> jsstring \<Rightarrow> jsstring
     \<Rightarrow> unit io" where
  "createSolutionFile_1 lc env details kebabTitle language extension =
     (let dirPath = path_join [language, lc (difficulty details)];
          fileName = fileName_1 details kebabTitle language extension;
          filePath = path_join [dirPath, fileName]
      in try_catch
           (io_bind (fs_mkdir env dirPath)
              (\<lambda>_. case find (\<lambda>s. langSlug s = language) (codeSnippets details) of
                      None \<Rightarrow> io_return ()
                    | Some snippet \<Rightarrow>
                        fs_writeFile env filePath
                          (formatProblemFile language (content details)
                             (if code snippet = [] then [] else code snippet))))
           (\<lambda>err. emit (LogFileError filePath)))"

fun createSolutionFiles_1_loop ::
  "(jsstring \<Rightarrow> jsstring) \<Rightarrow> env \<Rightarrow> ProblemDetails \<Rightarrow> jsstring \<Rightarrow> (jsstring \<times> jsstring) list
     \<Rightarrow> unit io" where
  "createSolutionFiles_1_loop lc env details kebabTitle [] = io_return ()"
| "createSolutionFiles_1_loop lc env details kebabTitle ((language, extension) # entries) =
     io_bind (createSolutionFile_1 lc env details kebabTitle language extension)
       (\<lambda>_. createSolutionFiles_1_loop lc env details kebabTitle entries)"

definition createSolutionFiles_1 :: "(jsstring \<Rightarrow> jsstring) \<Rightarrow> env \<Rightarrow> jsstring \<Rightarrow> unit io" where
  "createSolutionFiles_1 lc env slug =
     try_catch
       (io_bind next_fetch
          (\<lambda>k. io_bind
                 (promise_all3
                    (GraphQLClient_query (QueryContent slug) (questionContent env k slug))
                    (GraphQLClient_query (QueryEditorData slug) (questionEditorData env k slug))
                    (GraphQLClient_query (QueryData slug) (questionData env k slug)))
                 (\<lambda>(contentResponse, snippetsResponse, questionResponse).
                    (let details = \<lparr>content = qc_content contentResponse,
                                     codeSnippets = snippetsResponse,
                                     difficulty = qc_difficulty questionResponse,
                                     questionId = qc_questionId questionResponse,
                                     title = qc_title questionResponse,
                                     titleSlug = slug\<rparr>
                     in createSolutionFiles_1_loop lc env details
                          (toKebabCase lc (title details)) LANGUAGE_EXTENSIONS))))
       (\<lambda>err. io_throw err)"

text \<open>
  The body of the loop inside \<open>getDailyLeetcodeChallenge\<close>. Its lists are
  \<open>createdFiles\<close>, \<open>existingFiles\<close> (here \<open>updated\<close>) and \<open>skippedFiles\<close>. The first
  component of the pair is the \<open>continue\<close>. The \<open>try\<close> covers the check of the file;
  \<open>mkdir\<close> in its handler and \<open>writeFile\<close> after it are outside.
\<close>

definition challengeFile_1 ::
  "(jsstring \<Rightarrow> jsstring) \<Rightarrow> env \<Rightarrow> ProblemDetails \<Rightarrow> jsstring \<Rightarrow> jsstring \<Rightarrow> jsstring
     \<Rightarrow> FileOperationResult \<Rightarrow> FileOperationResult io" where
  "challengeFile_1 lc env details kebabTitle language extension result =
     (let dirPath = path_join [language, lc (difficulty details)];
          fileName = fileName_1 details kebabTitle language extension;
          filePath = path_join [dirPath, fileName]
      in io_bind
           (try_catch
              (io_bind (fs_access filePath)
                 (\<lambda>_. io_bind (hasContent env filePath)
                 (\<lambda>hasExistingContent.
                    if hasExistingContent
                    then io_return (True, result\<lparr>skipped := skipped result @ [filePath]\<rparr>)
                    else io_return (False, result\<lparr>updated := updated result @ [filePath]\<rparr>))))
              (\<lambda>_. io_bind (fs_mkdir env dirPath) (\<lambda>_. io_return (False, result))))
           (\<lambda>(continue, result').
              if continue then io_return result'
              else
                io_bind (fs_writeFile env filePath
                           (formatProblemFile language (content details)
                              (snippetCode details language)))
                  (\<lambda>_. io_return
                          (if filePath \<in> set (updated result') then result'
                           else result'\<lparr>created := created result' @ [filePath]\<rparr>))))"

fun challengeFiles_1_loop ::
  "(jsstring \<Rightarrow> jsstring) \<Rightarrow> env \<Rightarrow> ProblemDetails \<Rightarrow> jsstring \<Rightarrow> (jsstring \<times> jsstring) list
     \<Rightarrow> FileOperationResult \<Rightarrow> FileOperationResult io" where
  "challengeFiles_1_loop lc env details kebabTitle [] result = io_return result"
| "challengeFiles_1_loop lc env details kebabTitle ((language, extension) # entries) result =
     io_bind (challengeFile_1 lc env details kebabTitle language extension result)
       (challengeFiles_1_loop lc env details kebabTitle entries)"

definition executeCommand :: "env \<Rightarrow> jsstring \<Rightarrow> unit io" where
  "executeCommand env slug = call (Command slug) (command_ok env) ''command''"

definition getDailyLeetcodeChallenge :: "(jsstring \<Rightarrow> jsstring) \<Rightarrow> env \<Rightarrow> unit io" where
  "getDailyLeetcodeChallenge lc env =
     try_catch
       (io_bind (fetchCsrfToken env)
          (\<lambda>csrf. io_bind (GraphQLClient_query QueryOfToday (questionOfToday env))
          (\<lambda>question. io_bind next_fetch
          (\<lambda>k. io_bind
                 (promise_all2
                    (GraphQLClient_query (QueryContent (dc_titleSlug question))
                       (questionContent env k (dc_titleSlug question)))
                    (GraphQLClient_query (QueryEditorData (dc_titleSlug question))
                       (questionEditorData env k (dc_titleSlug question))))
          (\<lambda>(contentResponse, snippetsResponse).
             (let details = \<lparr>content = qc_content contentResponse,
                              codeSnippets = snippetsResponse,
                              difficulty = dc_difficulty question,
                              questionId = dc_questionId question,
                              title = dc_title question,
                              titleSlug = dc_titleSlug question\<rparr>
              in io_bind (challengeFiles_1_loop lc env details (toKebabCase lc (title details))
                            LANGUAGE_EXTENSIONS \<lparr>created = [], updated = [], skipped = []\<rparr>)
                   (\<lambda>result.
                      try_catch (executeCommand env (dc_titleSlug question))
                                (\<lambda>cmdError. io_return ()))))))))
       (\<lambda>initialError.
          try_catch
            (io_bind (getDailyLeetcodeChallengeWithPuppeteer env)
               (\<lambda>slug. createSolutionFiles_1 lc env slug))
            (\<lambda>puppeteerError. io_throw (Error ''Both API and Puppeteer approaches failed'')))"

text \<open>The entry point: \<open>run().catch(\<dots> process.exit(1))\<close>.\<close>

definition main_1 :: "(jsstring \<Rightarrow> jsstring) \<Rightarrow> env \<Rightarrow> state \<Rightarrow> nat \<times> state" where
  "main_1 lc env s =
     (case getDailyLeetcodeChallenge lc env s of
        (Inl error, s') \<Rightarrow> (1, s')
      | (Inr u, s') \<Rightarrow> (0, s'))"

section \<open>Vocabulary for the claims about files\<close>

text \<open>
  \<open>substantive env s p\<close>: the file at \<open>p\<close> exists, can be read, and the scan finds a line
  that is neither blank nor taken for a comment. \<open>outcome_of\<close> names what the second
  script's loop does for a file from that and from what the environment lets succeed;
  \<open>Failed\<close> is the case its handler logs.
\<close>

definition substantive :: "env \<Rightarrow> state \<Rightarrow> jsstring \<Rightarrow> bool" where
  "substantive env s p =
     (case files s p of
        None \<Rightarrow> False
      | Some text \<Rightarrow> \<not> unreadable env p \<and> scan_lines False (split_on 10 text))"

datatype outcome = Created | Updated | Skipped | Failed

definition outcome_of :: "env \<Rightarrow> state \<Rightarrow> jsstring \<Rightarrow> jsstring \<Rightarrow> outcome" where
  "outcome_of env s dirPath filePath =
     (if substantive env s filePath then Skipped
      else if mkdir_fails env dirPath \<or> write_fails env filePath then Failed
      else if files s filePath \<noteq> None then Updated
      else Created)"


definition accessed :: "event list \<Rightarrow> jsstring list" where
  "accessed t = concat (map (\<lambda>e. case e of Access p \<Rightarrow> [p] | _ \<Rightarrow> []) t)"

definition logged_errors :: "event list \<Rightarrow> jsstring list" where
  "logged_errors t = concat (map (\<lambda>e. case e of LogFileError p \<Rightarrow> [p] | _ \<Rightarrow> []) t)"

text \<open>
  The same for a language of the table, from the state \<open>s\<close> the loop starts in:
  the outcome, the text it writes, and the events of its turn of the loop.
\<close>

definition language_outcome ::
  "(jsstring \<Rightarrow> jsstring) \<Rightarrow> env \<Rightarrow> ProblemDetails \<Rightarrow> state \<Rightarrow> jsstring \<Rightarrow> outcome" where
  "language_outcome lc env details s language =
     outcome_of env s (dirPathOf lc details language) (filePathOf lc details language)"

definition language_text :: "ProblemDetails \<Rightarrow> jsstring \<Rightarrow> jsstring" where
  "language_text details language =
     formatProblemFile language (content details) (snippetCode details language)"

definition language_events ::
  "(jsstring \<Rightarrow> jsstring) \<Rightarrow> env \<Rightarrow> ProblemDetails \<Rightarrow> state \<Rightarrow> jsstring \<Rightarrow> event list" where
  "language_events lc env details s language =
     (let dirPath = dirPathOf lc details language;
          filePath = filePathOf lc details language
      in Access filePath # (if files s filePath \<noteq> None then [ReadFile filePath] else [])
         @ (case language_outcome lc env details s language of
              Skipped \<Rightarrow> []
            | Failed \<Rightarrow> [Mkdir dirPath, LogFileError filePath]
            | Updated \<Rightarrow> [Mkdir dirPath, WriteFile filePath (language_text details language)]
            | Created \<Rightarrow> [Mkdir dirPath, WriteFile filePath (language_text details language)]))"

definition languages_with ::
  "(jsstring \<Rightarrow> jsstring) \<Rightarrow> env \<Rightarrow> ProblemDetails \<Rightarrow> state \<Rightarrow> (jsstring \<times> jsstring) list
     \<Rightarrow> outcome \<Rightarrow> jsstring list" where
  "languages_with lc env details s entries out =
     map (\<lambda>x. filePathOf lc details (fst x))
       (filter (\<lambda>x. language_outcome lc env details s (fst x) = out) entries)"

section \<open>Example inputs\<close>

text \<open>
  An environment in which every call succeeds, an empty state, and a problem for which
  the site returns no snippet at all.
\<close>

definition example_details :: ProblemDetails where
  "example_details =
     \<lparr>content = str ''<p>Given an array.</p>'', codeSnippets = [],
      difficulty = str ''Easy'', questionId = str ''1'', title = str ''Two Sum'',
      titleSlug = str ''two-sum''\<rparr>"

definition example_env :: env where
  "example_env =
     \<lparr>csrfTokenMatch = Inr (Some (str ''token'')),
      questionOfToday = Inr \<lparr>dc_questionId = str ''1'', dc_title = str ''Two Sum'',
                              dc_titleSlug = str ''two-sum'', dc_difficulty = str ''Easy''\<rparr>,
      questionContent = (\<lambda>k slug. Inr \<lparr>qc_content = str ''<p>Given an array.</p>'',
                                          qc_questionId = str ''1'', qc_title = str ''Two Sum'',
                                          qc_difficulty = str ''Easy''\<rparr>),
      questionEditorData = (\<lambda>k slug. Inr []),
      questionData = (\<lambda>k slug. Inr \<lparr>qc_content = [], qc_questionId = str ''1'',
                                       qc_title = str ''Two Sum'', qc_difficulty = str ''Easy''\<rparr>),
      launch_ok = True, newPage_ok = True, setUserAgent_ok = True, setViewport_ok = True,
      goto_ok = True, waitForSelector_ok = True, evaluate = Inr (Some (str ''two-sum'')),
      cookies_ok = True, page_close_ok = True, browser_close_ok = True,
      unreadable = (\<lambda>p. False), mkdir_fails = (\<lambda>d. False), write_fails = (\<lambda>p. False),
      command_ok = True\<rparr>"

definition example_state :: state where
  "example_state =
     \<lparr>files = Map.empty, trace = [], csrfToken = None, browser = False, fetches = 0\<rparr>"

text \<open>The state after \<open>FileManager.createSolutionFiles\<close> has run once from the empty state.\<close>

definition after_first_run :: state where
  "after_first_run =
     snd (createSolutionFiles asciiLower example_env example_details example_state)"

text \<open>
  An environment in which \<open>writeFile\<close> fails for the python file only, and the page
  shows no daily challenge.
\<close>

definition write_failure_env :: env where
  "write_failure_env =
     example_env\<lparr>write_fails := (\<lambda>p. p = str ''python/easy/1-two-sum.py''),
                  evaluate := Inr None\<rparr>"

text \<open>An environment in which the browser starts and cannot open a page.\<close>

definition no_page_env :: env where
  "no_page_env = example_env\<lparr>newPage_ok := False\<rparr>"



text \<open>
  An environment in which the query for the daily challenge is refused and the page shows
  no daily challenge.
\<close>

definition offline_env :: env where
  "offline_env =
     example_env\<lparr>questionOfToday := Inl (Rejected ''429''), evaluate := Inr None\<rparr>"

section \<open>Vocabulary for the claims about the orchestrator\<close>

text \<open>
  The events of acquiring the identity of the challenge: the request for the token, the
  query for the daily challenge, the launch of the browser. \<open>emits m X\<close>: from every
  state, \<open>m\<close> adds a stretch to the trace whose acquisition events are \<open>X\<close>.
  \<open>extends m\<close>: \<open>m\<close> only adds to the trace and leaves the scraper's browser field alone.
\<close>

definition acquisition_events :: "event list \<Rightarrow> event list" where
  "acquisition_events t = filter (\<lambda>e. e = HttpGetHome \<or> e = QueryOfToday \<or> e = Launch) t"

definition emits :: "'a io \<Rightarrow> event list \<Rightarrow> bool" where
  "emits m X = (\<forall>s. \<exists>t. trace (snd (m s)) = trace s @ t \<and> acquisition_events t = X)"

definition extends :: "'a io \<Rightarrow> bool" where
  "extends m = (\<forall>s. \<exists>t. trace (snd (m s)) = trace s @ t \<and> browser (snd (m s)) = browser s)"

text \<open>
  The acquisition through the API fails: no token is found, or the query for the daily
  challenge fails.
\<close>

definition api_acquisition_fails :: "env \<Rightarrow> bool" where
  "api_acquisition_fails env =
     (case csrfTokenMatch env of
        Inr (Some token) \<Rightarrow> isl (questionOfToday env)
      | _ \<Rightarrow> True)"

text \<open>
  Names for two stretches of the first script's \<open>getDailyLeetcodeChallenge\<close>: the
  acquisition of the identity at the head of its \<open>try\<close> block, and the body of the
  \<open>try\<close> inside its handler.
\<close>

definition api_acquisition_1 :: "env \<Rightarrow> DailyChallenge io" where
  "api_acquisition_1 env =
     io_bind (fetchCsrfToken env)
       (\<lambda>csrf. GraphQLClient_query QueryOfToday (questionOfToday env))"

definition fallback_1 :: "(jsstring \<Rightarrow> jsstring) \<Rightarrow> env \<Rightarrow> unit io" where
  "fallback_1 lc env =
     io_bind (getDailyLeetcodeChallengeWithPuppeteer env)
       (\<lambda>slug. createSolutionFiles_1 lc env slug)"

section \<open>Properties of the text normalizer\<close>

lemma slug_unit_not_space: "slug_unit c \<Longrightarrow> \<not> is_space c"
  by (auto simp: slug_unit_def is_space_def)

lemma slug_unit_ascii: "slug_unit c \<Longrightarrow> is_ascii c"
  by (auto simp: slug_unit_def is_ascii_def)

lemma slug_unit_lower: "slug_unit c \<Longrightarrow> lower_unit c = c"
  by (auto simp: slug_unit_def lower_unit_def)

lemma matches_slug_regex_iff: "matches_slug_regex s = list_all slug_unit s"
  by (induction s) auto

lemma replace_spaces_slug: "list_all slug_unit s \<Longrightarrow> replace_spaces s = s"
  by (induction s) (auto simp: slug_unit_not_space)

lemma asciiLower_slug: "list_all slug_unit s \<Longrightarrow> asciiLower s = s"
  by (induction s) (auto simp: asciiLower_def slug_unit_lower)

lemma toLowerCase_slug:
  assumes "js_toLowerCase lc" and "list_all slug_unit s"
  shows "lc s = s"
proof -
  from assms(2) have "list_all is_ascii s"
    by (induction s) (auto simp: slug_unit_ascii)
  with assms(1) have "lc s = asciiLower s"
    by (simp add: js_toLowerCase_def)
  with assms(2) show ?thesis
    by (simp add: asciiLower_slug)
qed

lemma toKebabCase_slug_units: "list_all slug_unit (toKebabCase lc s)"
  by (simp add: toKebabCase_def list_all_iff)

lemma js_toLowerCase_asciiLower: "js_toLowerCase asciiLower"
  by (simp add: js_toLowerCase_def)

text \<open>
  C6. For every title, and every \<open>toLowerCase\<close> that acts on ASCII strings as
  JavaScript's does, \<open>toKebabCase\<close> is idempotent and its result matches
  \<open>^[a-z0-9-]*$\<close>.
\<close>

theorem toKebabCase_idempotent_and_slug:
  assumes "js_toLowerCase lc"
  shows "toKebabCase lc (toKebabCase lc T) = toKebabCase lc T
         \<and> matches_slug_regex (toKebabCase lc T)"
proof -
  let ?k = "toKebabCase lc T"
  have units: "list_all slug_unit ?k"
    by (rule toKebabCase_slug_units)
  from assms units have "lc ?k = ?k"
    by (rule toLowerCase_slug)
  moreover from units have "replace_spaces ?k = ?k"
    by (rule replace_spaces_slug)
  moreover from units have "filter slug_unit ?k = ?k"
    by (simp add: list_all_iff)
  ultimately have "toKebabCase lc ?k = ?k"
    by (simp add: toKebabCase_def[of lc ?k])
  with units show ?thesis
    by (simp add: matches_slug_regex_iff)
qed

theorem toKebabCase_idempotent_and_slug_witness:
  "js_toLowerCase asciiLower
   \<and> toKebabCase asciiLower (str ''Two  Sum: II!'') = str ''two-sum-ii''
   \<and> toKebabCase asciiLower (toKebabCase asciiLower (str ''Two  Sum: II!''))
       = toKebabCase asciiLower (str ''Two  Sum: II!'')
   \<and> matches_slug_regex (toKebabCase asciiLower (str ''Two  Sum: II!''))"
  using toKebabCase_idempotent_and_slug [OF js_toLowerCase_asciiLower, of "str ''Two  Sum: II!''"]
  by (simp add: js_toLowerCase_asciiLower toKebabCase_def asciiLower_def lower_unit_def
      str_def is_space_def slug_unit_def)

section \<open>Properties of htmlToText\<close>

lemma tag_end_iff:
  "tag_end cs \<noteq> None \<longleftrightarrow> (\<exists>mid post. cs = mid @ 62 # post \<and> mid \<noteq> [] \<and> 62 \<notin> set mid)"
proof
  assume "tag_end cs \<noteq> None"
  then obtain g rest where d: "dropWhile (\<lambda>x. x \<noteq> 62) cs = g # rest"
    and t: "takeWhile (\<lambda>x. x \<noteq> 62) cs \<noteq> []"
    by (auto simp: tag_end_def split: list.splits if_splits)
  have g: "g = 62"
    using hd_dropWhile[of "\<lambda>x. x \<noteq> 62" cs] d by simp
  have "cs = takeWhile (\<lambda>x. x \<noteq> 62) cs @ dropWhile (\<lambda>x. x \<noteq> 62) cs"
    by simp
  with d g have "cs = takeWhile (\<lambda>x. x \<noteq> 62) cs @ 62 # rest"
    by simp
  moreover have "62 \<notin> set (takeWhile (\<lambda>x. x \<noteq> 62) cs)"
    using set_takeWhileD[of 62 "\<lambda>x. x \<noteq> 62" cs] by blast
  ultimately show "\<exists>mid post. cs = mid @ 62 # post \<and> mid \<noteq> [] \<and> 62 \<notin> set mid"
    using t by blast
next
  assume "\<exists>mid post. cs = mid @ 62 # post \<and> mid \<noteq> [] \<and> 62 \<notin> set mid"
  then obtain mid post where cs: "cs = mid @ 62 # post" and m: "mid \<noteq> []" "62 \<notin> set mid"
    by blast
  have "takeWhile (\<lambda>x. x \<noteq> 62) cs = mid"
    unfolding cs using m(2) by (induction mid) auto
  moreover have "dropWhile (\<lambda>x. x \<noteq> 62) cs = 62 # post"
    unfolding cs using m(2) by (induction mid) auto
  ultimately show "tag_end cs \<noteq> None"
    using m(1) by (simp add: tag_end_def)
qed

text \<open>\<open>has_tag\<close> is a match of \<open><[^>]+>\<close>: a \<open><\<close>, a non-empty run without \<open>>\<close>, a \<open>>\<close>.\<close>

lemma has_tag_iff:
  "has_tag s \<longleftrightarrow>
     (\<exists>pre mid post. s = pre @ 60 # mid @ 62 # post \<and> mid \<noteq> [] \<and> 62 \<notin> set mid)"
proof (induction s)
  case Nil
  then show ?case by simp
next
  case (Cons c cs)
  show ?case
  proof
    assume "has_tag (c # cs)"
    then consider "c = 60" "tag_end cs \<noteq> None" | "has_tag cs"
      by auto
    then show "\<exists>pre mid post. c # cs = pre @ 60 # mid @ 62 # post \<and> mid \<noteq> [] \<and> 62 \<notin> set mid"
    proof cases
      case 1
      then obtain mid post where "cs = mid @ 62 # post" "mid \<noteq> []" "62 \<notin> set mid"
        using tag_end_iff by blast
      with 1(1) have "c # cs = [] @ 60 # mid @ 62 # post \<and> mid \<noteq> [] \<and> 62 \<notin> set mid"
        by simp
      then show ?thesis by blast
    next
      case 2
      with Cons.IH obtain pre mid post where
        "cs = pre @ 60 # mid @ 62 # post" "mid \<noteq> []" "62 \<notin> set mid"
        by blast
      then have "c # cs = (c # pre) @ 60 # mid @ 62 # post \<and> mid \<noteq> [] \<and> 62 \<notin> set mid"
        by simp
      then show ?thesis by blast
    qed
  next
    assume "\<exists>pre mid post. c # cs = pre @ 60 # mid @ 62 # post \<and> mid \<noteq> [] \<and> 62 \<notin> set mid"
    then obtain pre mid post where
      e: "c # cs = pre @ 60 # mid @ 62 # post" and m: "mid \<noteq> []" "62 \<notin> set mid"
      by blast
    show "has_tag (c # cs)"
    proof (cases pre)
      case Nil
      with e have c: "c = 60" and "cs = mid @ 62 # post"
        by simp_all
      with m have "tag_end cs \<noteq> None"
        using tag_end_iff by blast
      with c show ?thesis by simp
    next
      case (Cons p ps)
      with e have "cs = ps @ 60 # mid @ 62 # post"
        by simp
      with m Cons.IH have "has_tag cs"
        by blast
      then show ?thesis by simp
    qed
  qed
qed

lemma set_stripTags: "set (stripTags s) \<subseteq> set s"
proof (induction s rule: stripTags.induct)
  case 1
  then show ?case by simp
next
  case (2 c cs)
  show ?case
  proof (cases "c = 60")
    case False
    with 2 show ?thesis by auto
  next
    case True
    show ?thesis
    proof (cases "tag_end cs")
      case None
      with True 2 show ?thesis by auto
    next
      case (Some rest)
      then obtain g where "dropWhile (\<lambda>x. x \<noteq> 62) cs = g # rest"
        by (auto simp: tag_end_def split: list.splits if_splits)
      moreover have "set (dropWhile (\<lambda>x. x \<noteq> 62) cs) \<subseteq> set cs"
        by (auto dest: set_dropWhileD)
      ultimately have "set rest \<subseteq> set cs"
        by auto
      with True Some 2 show ?thesis by auto
    qed
  qed
qed

lemma tag_end_None_stripTags: "tag_end cs = None \<Longrightarrow> tag_end (stripTags cs) = None"
proof (cases cs)
  case Nil
  then show ?thesis by (simp add: tag_end_def)
next
  case (Cons d ds)
  assume n: "tag_end cs = None"
  show ?thesis
  proof (cases "d = 62")
    case True
    with Cons show ?thesis by (simp add: tag_end_def)
  next
    case False
    with Cons n have "dropWhile (\<lambda>x. x \<noteq> 62) cs = []"
      by (auto simp: tag_end_def split: list.splits if_splits)
    then have "62 \<notin> set cs"
      by (auto simp: dropWhile_eq_Nil_conv)
    with set_stripTags have "62 \<notin> set (stripTags cs)"
      by blast
    then have "dropWhile (\<lambda>x. x \<noteq> 62) (stripTags cs) = []"
      by (auto simp: dropWhile_eq_Nil_conv)
    then show ?thesis
      unfolding tag_end_def by (simp del: dropWhile_eq_Nil_conv)
  qed
qed

text \<open>What \<open>replace(/<[^>]+>/g, "")\<close> returns has no match of the pattern left.\<close>

lemma stripTags_no_tag: "\<not> has_tag (stripTags s)"
proof (induction s rule: stripTags.induct)
  case 1
  then show ?case by simp
next
  case (2 c cs)
  show ?case
  proof (cases "c = 60")
    case False
    with 2 show ?thesis by simp
  next
    case True
    show ?thesis
    proof (cases "tag_end cs")
      case None
      with True 2 show ?thesis by (simp add: tag_end_None_stripTags)
    next
      case (Some rest)
      with True 2 show ?thesis by simp
    qed
  qed
qed

lemma replaceAll_absent: "\<not> js_includes s p \<Longrightarrow> replaceAll p r s = s"
  by (induction s) auto

lemma has_tag_append: "has_tag s \<Longrightarrow> has_tag (a @ s @ b)"
proof -
  assume "has_tag s"
  then obtain pre mid post where
    "s = pre @ 60 # mid @ 62 # post" "mid \<noteq> []" "62 \<notin> set mid"
    using has_tag_iff by blast
  then have "a @ s @ b = (a @ pre) @ 60 # mid @ 62 # (post @ b) \<and> mid \<noteq> [] \<and> 62 \<notin> set mid"
    by simp
  then show ?thesis
    using has_tag_iff by blast
qed

lemma trim_infix: "\<exists>a b. s = a @ trim s @ b"
proof -
  let ?d = "dropWhile is_space s"
  let ?t = "takeWhile is_space (rev ?d)"
  have "trim s @ rev ?t = rev (?t @ dropWhile is_space (rev ?d))"
    by (simp only: trim_def rev_append)
  also have "\<dots> = rev (rev ?d)"
    by (simp only: takeWhile_dropWhile_id)
  finally have "?d = trim s @ rev ?t"
    by simp
  moreover have "s = takeWhile is_space s @ ?d"
    by simp
  ultimately have "s = takeWhile is_space s @ trim s @ rev ?t"
    by simp
  then show ?thesis
    by blast
qed

lemma has_tag_trim: "has_tag (trim s) \<Longrightarrow> has_tag s"
proof -
  assume h: "has_tag (trim s)"
  obtain a b where "s = a @ trim s @ b"
    using trim_infix by blast
  with has_tag_append[OF h, of a b] show ?thesis
    by simp
qed

lemma htmlToText_no_entity:
  assumes "no_entity (stripTags H)"
  shows "htmlToText H = trim (stripTags H)"
  using assms by (simp add: htmlToText_def no_entity_def entities_def replaceAll_absent)

lemma no_ampersand: "38 \<notin> set s \<Longrightarrow> \<not> js_includes s (38 # p)"
  by (induction s) (auto simp: startsWith_def)

text \<open>A text without \<open>&\<close> (38) has no entity after its tags are stripped.\<close>

lemma no_ampersand_no_entity: "38 \<notin> set H \<Longrightarrow> no_entity (stripTags H)"
proof -
  assume "38 \<notin> set H"
  with set_stripTags have "38 \<notin> set (stripTags H)"
    by blast
  then show ?thesis
    by (simp add: no_entity_def entities_def str_def no_ampersand)
qed

text \<open>
  C7, as the specification states it, fails: an input can hold none of the six
  entities and still yield one once its tags are stripped. \<open>&l<i>t;b&g<i>t;\<close> becomes
  \<open>&lt;b&gt;\<close>, which is decoded to the tag \<open><b>\<close>.
\<close>

theorem htmlToText_entity_from_stripped_tags:
  "no_entity (str ''&l<i>t;b&g<i>t;'')
   \<and> htmlToText (str ''&l<i>t;b&g<i>t;'') = str ''<b>''
   \<and> has_tag (htmlToText (str ''&l<i>t;b&g<i>t;''))"
  by (simp add: htmlToText_def str_def tag_end_def startsWith_def trim_def is_space_def
      no_entity_def entities_def)

text \<open>
  C7, amended. If the text that is left once the tags are stripped holds none of the
  six entities (so for every input without \<open>&\<close>), \<open>htmlToText\<close> returns that text
  trimmed, and no tag is left in it: the pattern \<open><[^>]+>\<close> matches nowhere in the result.
\<close>

theorem htmlToText_no_tag_left:
  assumes "no_entity (stripTags H)"
  shows "htmlToText H = trim (stripTags H) \<and> \<not> has_tag (htmlToText H)"
proof -
  have e: "htmlToText H = trim (stripTags H)"
    using assms by (rule htmlToText_no_entity)
  have "\<not> has_tag (trim (stripTags H))"
    using has_tag_trim stripTags_no_tag by blast
  with e show ?thesis
    by simp
qed

theorem htmlToText_no_tag_left_witness:
  "no_entity (stripTags (str ''<p>Given <b>n</b> > 3</p> ''))
   \<and> htmlToText (str ''<p>Given <b>n</b> > 3</p> '') = str ''Given n > 3''
   \<and> \<not> has_tag (htmlToText (str ''<p>Given <b>n</b> > 3</p> ''))"
  using htmlToText_no_tag_left [of "str ''<p>Given <b>n</b> > 3</p> ''"]
  by (simp add: str_def tag_end_def startsWith_def trim_def is_space_def
      no_entity_def entities_def)

section \<open>Properties of paths and file names\<close>

lemma split_on_plain: "d \<notin> set s \<Longrightarrow> split_on d s = [s]"
  by (induction s) auto

lemma split_on_append: "d \<notin> set a \<Longrightarrow> split_on d (a @ d # b) = a # split_on d b"
  by (induction a) auto

lemma split_join_slash:
  "segs \<noteq> [] \<Longrightarrow> list_all (\<lambda>s. 47 \<notin> set s) segs \<Longrightarrow> split_on 47 (join_slash segs) = segs"
proof (induction segs rule: join_slash.induct)
  case 1
  then show ?case by simp
next
  case (2 x)
  then show ?case by (simp add: split_on_plain)
next
  case (3 x y ys)
  then show ?case by (simp add: split_on_append)
qed

lemma normalize_segments_plain:
  "list_all plain_segment segs \<Longrightarrow> normalize_segments a acc segs = rev acc @ segs"
  by (induction segs arbitrary: acc) (auto simp: plain_segment_def)

lemma join_slash_Nil:
  "segs \<noteq> [] \<Longrightarrow> list_all (\<lambda>s. s \<noteq> []) segs \<Longrightarrow> join_slash segs \<noteq> []"
  by (induction segs rule: join_slash.induct) auto

lemma hd_join_slash:
  "segs \<noteq> [] \<Longrightarrow> list_all (\<lambda>s. s \<noteq> []) segs \<Longrightarrow> hd (join_slash segs) = hd (hd segs)"
  by (induction segs rule: join_slash.induct) auto

lemma last_join_slash:
  "segs \<noteq> [] \<Longrightarrow> list_all (\<lambda>s. s \<noteq> []) segs \<Longrightarrow> last (join_slash segs) = last (last segs)"
  by (induction segs rule: join_slash.induct) (auto simp: join_slash_Nil)

lemma plain_segment_hd: "plain_segment s \<Longrightarrow> hd s \<noteq> 47"
  by (cases s) (auto simp: plain_segment_def)

lemma plain_segment_last: "plain_segment s \<Longrightarrow> last s \<noteq> 47"
  by (cases s rule: rev_cases) (auto simp: plain_segment_def)

text \<open>Normalizing changes nothing in a path made of plain segments.\<close>

lemma path_normalize_plain:
  assumes "segs \<noteq> []" and "list_all plain_segment segs"
  shows "path_normalize (join_slash segs) = join_slash segs"
proof -
  from assms(2) have ne: "list_all (\<lambda>s. s \<noteq> []) segs"
    and ns: "list_all (\<lambda>s. 47 \<notin> set s) segs"
    by (auto simp: list_all_iff plain_segment_def)
  have j: "join_slash segs \<noteq> []"
    using assms(1) ne by (rule join_slash_Nil)
  from assms have "plain_segment (hd segs)" "plain_segment (last segs)"
    by (auto simp: list_all_iff)
  then have "hd (hd segs) \<noteq> 47" "last (last segs) \<noteq> 47"
    by (simp_all add: plain_segment_hd plain_segment_last)
  then have h: "hd (join_slash segs) \<noteq> 47" and l: "last (join_slash segs) \<noteq> 47"
    using assms(1) ne by (simp_all add: hd_join_slash last_join_slash)
  have "normalize_segments True [] (split_on 47 (join_slash segs)) = segs"
    using assms ns by (simp add: split_join_slash normalize_segments_plain)
  with j h l show ?thesis
    by (simp add: path_normalize_def)
qed

lemma path_join_plain:
  assumes "list_all plain_segment segs" and "segs \<noteq> []"
  shows "path_join segs = join_slash segs"
proof -
  from assms(1) have "filter (\<lambda>a. a \<noteq> []) segs = segs"
    by (auto simp: list_all_iff plain_segment_def intro: filter_True)
  with assms show ?thesis
    by (simp add: path_join_def path_normalize_plain)
qed

lemma path_join2_plain:
  assumes "plain_segment a" "plain_segment b" "plain_segment c"
  shows "path_join [path_join [a, b], c] = a @ 47 # b @ 47 # c"
proof -
  have 1: "path_join [a, b] = a @ 47 # b"
    using assms path_join_plain[of "[a, b]"] by simp
  from assms(3) have "c \<noteq> []"
    by (simp add: plain_segment_def)
  then have "path_join [a @ 47 # b, c] = path_normalize (join_slash [a, b, c])"
    by (simp add: path_join_def)
  also have "\<dots> = join_slash [a, b, c]"
    using assms path_normalize_plain[of "[a, b, c]"] by simp
  finally show ?thesis
    using 1 by simp
qed

lemma distinct_languages: "distinct (map fst LANGUAGE_EXTENSIONS)"
  by (simp add: LANGUAGE_EXTENSIONS_def str_def)

lemma map_of_LANGUAGE_EXTENSIONS:
  "(language, extension) \<in> set LANGUAGE_EXTENSIONS
   \<Longrightarrow> map_of LANGUAGE_EXTENSIONS language = Some extension"
  using distinct_languages by (rule map_of_is_SomeI)

text \<open>The two scripts compute the same file name for an entry of the table.\<close>

lemma getFileName_entry:
  "(language, extension) \<in> set LANGUAGE_EXTENSIONS
   \<Longrightarrow> getFileName language details kebabTitle = fileName_1 details kebabTitle language extension"
  by (simp add: getFileName_def fileName_1_def map_of_LANGUAGE_EXTENSIONS)

lemma plain_language:
  "(language, extension) \<in> set LANGUAGE_EXTENSIONS
   \<Longrightarrow> plain_segment language \<and> 47 \<notin> set extension"
  by (auto simp: LANGUAGE_EXTENSIONS_def plain_segment_def str_def)

lemma slug_units_no_slash: "list_all slug_unit k \<Longrightarrow> 47 \<notin> set k"
  by (induction k) (auto simp: slug_unit_def)

lemma plain_fileName_1:
  assumes "(language, extension) \<in> set LANGUAGE_EXTENSIONS"
    and "47 \<notin> set (questionId details)" and "list_all slug_unit k"
  shows "plain_segment (fileName_1 details k language extension)"
proof -
  let ?f = "fileName_1 details k language extension"
  have ext: "47 \<notin> set extension"
    using assms(1) plain_language by blast
  have k: "47 \<notin> set k"
    using assms(3) by (rule slug_units_no_slash)
  have "47 \<notin> set ?f"
    using ext k assms(2) by (auto simp: fileName_1_def)
  moreover have "45 \<in> set ?f \<or> 95 \<in> set ?f"
    by (simp add: fileName_1_def)
  then have "?f \<noteq> [] \<and> ?f \<noteq> [46] \<and> ?f \<noteq> [46, 46]"
    by auto
  ultimately show ?thesis
    by (simp add: plain_segment_def)
qed

lemma toLowerCase_ascii:
  "js_toLowerCase lc \<Longrightarrow> list_all is_ascii s \<Longrightarrow> lc s = asciiLower s"
  by (simp add: js_toLowerCase_def)

text \<open>
  C5. With a \<open>toLowerCase\<close> that acts on ASCII strings as JavaScript's does:
  the slug of \<open>Trapping Rain Water\<close> is \<open>trapping-rain-water\<close>, and the path for
  \<open>python\<close>, question 42, difficulty \<open>Hard\<close> is \<open>python/hard/42-trapping-rain-water.py\<close>.
  For every problem and every entry of the table, the path is \<open>path.join\<close> of the
  directory, itself \<open>path.join\<close> of the language and the lowercased difficulty, and the
  file name: the question id, \<open>-\<close>, the slug, \<open>.\<close> and the extension, but for \<open>dart\<close>
  the question id, \<open>_\<close> and the slug with each \<open>-\<close> turned into \<open>_\<close>. When the lowercased
  difficulty is a plain segment and the question id has no \<open>/\<close>, that path is the three
  parts with a \<open>/\<close> between them.
\<close>

theorem target_path_layout:
  assumes lc: "js_toLowerCase lc"
    and entry: "(language, extension) \<in> set LANGUAGE_EXTENSIONS"
  shows "toKebabCase lc (str ''Trapping Rain Water'') = str ''trapping-rain-water''
    \<and> filePathOf lc \<lparr>content = c, codeSnippets = sn, difficulty = str ''Hard'',
           questionId = str ''42'', title = str ''Trapping Rain Water'', titleSlug = ts\<rparr>
           (str ''python'') = str ''python/hard/42-trapping-rain-water.py''
    \<and> filePathOf lc details language =
           path_join [path_join [language, lc (difficulty details)],
             (if language = str ''dart''
              then questionId details @ str ''_''
                     @ map (\<lambda>c. if c = 45 then 95 else c) (toKebabCase lc (title details))
                     @ str ''.'' @ extension
              else questionId details @ str ''-'' @ toKebabCase lc (title details)
                     @ str ''.'' @ extension)]
    \<and> (plain_segment (lc (difficulty details)) \<and> 47 \<notin> set (questionId details) \<longrightarrow>
         filePathOf lc details language =
           language @ str ''/'' @ lc (difficulty details) @ str ''/''
             @ (if language = str ''dart''
                then questionId details @ str ''_''
                       @ map (\<lambda>c. if c = 45 then 95 else c) (toKebabCase lc (title details))
                       @ str ''.'' @ extension
                else questionId details @ str ''-'' @ toKebabCase lc (title details)
                       @ str ''.'' @ extension))"
proof -
  have "lc (str ''Trapping Rain Water'') = asciiLower (str ''Trapping Rain Water'')"
    using lc by (rule toLowerCase_ascii) (simp add: str_def is_ascii_def)
  then have kebab: "toKebabCase lc (str ''Trapping Rain Water'') = str ''trapping-rain-water''"
    by (simp add: toKebabCase_def asciiLower_def lower_unit_def str_def is_space_def slug_unit_def)
  have "lc (str ''Hard'') = asciiLower (str ''Hard'')"
    using lc by (rule toLowerCase_ascii) (simp add: str_def is_ascii_def)
  then have hard: "lc (str ''Hard'') = str ''hard''"
    by (simp add: asciiLower_def lower_unit_def str_def)
  have name: "getFileName language details (toKebabCase lc (title details))
                = fileName_1 details (toKebabCase lc (title details)) language extension"
    using entry by (rule getFileName_entry)
  have general: "filePathOf lc details language =
           path_join [path_join [language, lc (difficulty details)],
             (if language = str ''dart''
              then questionId details @ str ''_''
                     @ map (\<lambda>c. if c = 45 then 95 else c) (toKebabCase lc (title details))
                     @ str ''.'' @ extension
              else questionId details @ str ''-'' @ toKebabCase lc (title details)
                     @ str ''.'' @ extension)]"
    unfolding filePathOf_def dirPathOf_def name
    by (simp add: fileName_1_def str_def)
  have example: "filePathOf lc \<lparr>content = c, codeSnippets = sn, difficulty = str ''Hard'',
           questionId = str ''42'', title = str ''Trapping Rain Water'', titleSlug = ts\<rparr>
           (str ''python'') = str ''python/hard/42-trapping-rain-water.py''"
    by (simp add: filePathOf_def dirPathOf_def getFileName_def kebab hard)
       (simp add: LANGUAGE_EXTENSIONS_def path_join_def path_normalize_def str_def)
  have layout: "plain_segment (lc (difficulty details)) \<and> 47 \<notin> set (questionId details) \<longrightarrow>
         filePathOf lc details language =
           language @ str ''/'' @ lc (difficulty details) @ str ''/''
             @ (if language = str ''dart''
                then questionId details @ str ''_''
                       @ map (\<lambda>c. if c = 45 then 95 else c) (toKebabCase lc (title details))
                       @ str ''.'' @ extension
                else questionId details @ str ''-'' @ toKebabCase lc (title details)
                       @ str ''.'' @ extension)"
  proof
    assume a: "plain_segment (lc (difficulty details)) \<and> 47 \<notin> set (questionId details)"
    have l: "plain_segment language"
      using entry plain_language by blast
    have f: "plain_segment (fileName_1 details (toKebabCase lc (title details)) language extension)"
      using entry a toKebabCase_slug_units by (simp add: plain_fileName_1)
    have "filePathOf lc details language =
            language @ 47 # lc (difficulty details) @ 47 #
              fileName_1 details (toKebabCase lc (title details)) language extension"
      unfolding filePathOf_def dirPathOf_def name
      using l a f by (simp add: path_join2_plain)
    then show "filePathOf lc details language =
           language @ str ''/'' @ lc (difficulty details) @ str ''/''
             @ (if language = str ''dart''
                then questionId details @ str ''_''
                       @ map (\<lambda>c. if c = 45 then 95 else c) (toKebabCase lc (title details))
                       @ str ''.'' @ extension
                else questionId details @ str ''-'' @ toKebabCase lc (title details)
                       @ str ''.'' @ extension)"
      by (simp add: fileName_1_def str_def)
  qed
  from kebab example general layout show ?thesis
    by (intro conjI)
qed

theorem target_path_layout_witness:
  "js_toLowerCase asciiLower
   \<and> (str ''dart'', str ''dart'') \<in> set LANGUAGE_EXTENSIONS
   \<and> plain_segment (asciiLower (str ''Medium'')) \<and> 47 \<notin> set (str ''15'')
   \<and> filePathOf asciiLower \<lparr>content = [], codeSnippets = [], difficulty = str ''Medium'',
        questionId = str ''15'', title = str ''3Sum Closest'', titleSlug = []\<rparr> (str ''dart'')
      = str ''dart/medium/15_3sum_closest.dart''
   \<and> toKebabCase asciiLower (str ''Trapping Rain Water'') = str ''trapping-rain-water''
   \<and> filePathOf asciiLower \<lparr>content = [], codeSnippets = [], difficulty = str ''Hard'',
        questionId = str ''42'', title = str ''Trapping Rain Water'', titleSlug = []\<rparr>
        (str ''python'') = str ''python/hard/42-trapping-rain-water.py''"
proof -
  have lc: "js_toLowerCase asciiLower"
    by (rule js_toLowerCase_asciiLower)
  have entry: "(str ''dart'', str ''dart'') \<in> set LANGUAGE_EXTENSIONS"
    by (simp add: LANGUAGE_EXTENSIONS_def)
  have plain: "plain_segment (asciiLower (str ''Medium'')) \<and> 47 \<notin> set (str ''15'')"
    by (simp add: plain_segment_def asciiLower_def lower_unit_def str_def)
  note t = target_path_layout [OF lc entry, of "[]" "[]" "[]"
      "\<lparr>content = [], codeSnippets = [], difficulty = str ''Medium'',
        questionId = str ''15'', title = str ''3Sum Closest'', titleSlug = []\<rparr>"]
  have "filePathOf asciiLower \<lparr>content = [], codeSnippets = [], difficulty = str ''Medium'',
        questionId = str ''15'', title = str ''3Sum Closest'', titleSlug = []\<rparr> (str ''dart'')
      = str ''dart/medium/15_3sum_closest.dart''"
    using plain t [THEN conjunct2, THEN conjunct2, THEN conjunct2]
    by (simp add: toKebabCase_def asciiLower_def lower_unit_def str_def is_space_def slug_unit_def)
  with lc entry plain t [THEN conjunct1] t [THEN conjunct2, THEN conjunct1] show ?thesis
    by simp
qed

section \<open>Properties of the file loop of the second script\<close>

lemmas io_defs = io_return_def io_throw_def io_bind_def try_catch_def try_finally_def emit_def
  step_def call_def

lemma hasNonCommentContent_eq:
  "hasNonCommentContent env p s =
     (Inr (substantive env s p), s\<lparr>trace := trace s @ [ReadFile p]\<rparr>)"
  by (auto simp: hasNonCommentContent_def fs_readFile_def substantive_def io_defs split: option.splits)

lemma createSolutionFile_eq:
  "createSolutionFile lc env details kebabTitle language result s =
     (let dirPath = path_join [language, lc (difficulty details)];
          filePath = path_join [dirPath, getFileName language details kebabTitle];
          text = formatProblemFile language (content details) (snippetCode details language);
          checks = Access filePath # (if files s filePath \<noteq> None then [ReadFile filePath] else [])
      in case outcome_of env s dirPath filePath of
           Skipped \<Rightarrow>
             (Inr (result\<lparr>skipped := skipped result @ [filePath]\<rparr>),
              s\<lparr>trace := trace s @ checks\<rparr>)
         | Failed \<Rightarrow>
             (Inr result,
              s\<lparr>trace := trace s @ checks @ [Mkdir dirPath, LogFileError filePath]\<rparr>)
         | Updated \<Rightarrow>
             (Inr (result\<lparr>updated := updated result @ [filePath]\<rparr>),
              s\<lparr>trace := trace s @ checks @ [Mkdir dirPath, WriteFile filePath text],
                files := (files s)(filePath \<mapsto> text)\<rparr>)
         | Created \<Rightarrow>
             (Inr (result\<lparr>created := created result @ [filePath]\<rparr>),
              s\<lparr>trace := trace s @ checks @ [Mkdir dirPath, WriteFile filePath text],
                files := (files s)(filePath \<mapsto> text)\<rparr>))"
  by (auto simp: createSolutionFile_def Let_def outcome_of_def hasNonCommentContent_eq
        fs_access_def fs_mkdir_def fs_writeFile_def io_defs substantive_def
        split: option.splits)

lemma outcome_of_cong:
  "files s p = files s0 p \<Longrightarrow> outcome_of env s dir p = outcome_of env s0 dir p"
  by (simp add: outcome_of_def substantive_def)

text \<open>One turn of the loop, seen from a state s0 that has the same file at the path.\<close>

lemma createSolutionFile_turn:
  assumes "files s (filePathOf lc details language) = files s0 (filePathOf lc details language)"
  shows "\<exists>r s'. createSolutionFile lc env details (toKebabCase lc (title details)) language result s
                  = (Inr r, s')
     \<and> created r = created result
          @ (if language_outcome lc env details s0 language = Created
             then [filePathOf lc details language] else [])
     \<and> updated r = updated result
          @ (if language_outcome lc env details s0 language = Updated
             then [filePathOf lc details language] else [])
     \<and> skipped r = skipped result
          @ (if language_outcome lc env details s0 language = Skipped
             then [filePathOf lc details language] else [])
     \<and> trace s' = trace s @ language_events lc env details s0 language
     \<and> files s' =
          (if language_outcome lc env details s0 language \<in> {Created, Updated}
           then (files s)(filePathOf lc details language \<mapsto> language_text details language)
           else files s)"
proof -
  let ?p = "filePathOf lc details language"
  let ?d = "dirPathOf lc details language"
  let ?t = "language_text details language"
  let ?o = "language_outcome lc env details s0 language"
  let ?checks = "Access ?p # (if files s0 ?p \<noteq> None then [ReadFile ?p] else [])"
  have o: "outcome_of env s ?d ?p = ?o"
    unfolding language_outcome_def using assms by (rule outcome_of_cong)
  have step: "createSolutionFile lc env details (toKebabCase lc (title details)) language result s =
     (case ?o of
           Skipped \<Rightarrow>
             (Inr (result\<lparr>skipped := skipped result @ [?p]\<rparr>),
              s\<lparr>trace := trace s @ ?checks\<rparr>)
         | Failed \<Rightarrow>
             (Inr result,
              s\<lparr>trace := trace s @ ?checks @ [Mkdir ?d, LogFileError ?p]\<rparr>)
         | Updated \<Rightarrow>
             (Inr (result\<lparr>updated := updated result @ [?p]\<rparr>),
              s\<lparr>trace := trace s @ ?checks @ [Mkdir ?d, WriteFile ?p ?t],
                files := (files s)(?p \<mapsto> ?t)\<rparr>)
         | Created \<Rightarrow>
             (Inr (result\<lparr>created := created result @ [?p]\<rparr>),
              s\<lparr>trace := trace s @ ?checks @ [Mkdir ?d, WriteFile ?p ?t],
                files := (files s)(?p \<mapsto> ?t)\<rparr>))"
    unfolding createSolutionFile_eq Let_def o [unfolded filePathOf_def dirPathOf_def]
      assms [unfolded filePathOf_def dirPathOf_def]
    unfolding filePathOf_def dirPathOf_def language_text_def
    by (rule refl)
  have ev: "language_events lc env details s0 language =
      ?checks @ (case ?o of
              Skipped \<Rightarrow> []
            | Failed \<Rightarrow> [Mkdir ?d, LogFileError ?p]
            | Updated \<Rightarrow> [Mkdir ?d, WriteFile ?p ?t]
            | Created \<Rightarrow> [Mkdir ?d, WriteFile ?p ?t])"
    by (simp add: language_events_def Let_def)
  show ?thesis
    unfolding step ev
    by (cases ?o) simp_all
qed

lemma split_on_nonempty: "split_on d s \<noteq> []"
  by (induction s) (auto split: list.splits)

lemma split_on_snoc:
  "d \<notin> set v \<Longrightarrow> split_on d (u @ v) = butlast (split_on d u) @ [last (split_on d u) @ v]"
proof (induction u)
  case Nil
  then show ?case by (simp add: split_on_plain)
next
  case (Cons c u)
  obtain x xs where S: "split_on d u = x # xs"
    using split_on_nonempty [of d u] by (cases "split_on d u") auto
  show ?case
  proof (cases "c = d")
    case True
    with Cons S show ?thesis by simp
  next
    case False
    with Cons S show ?thesis by (cases xs) auto
  qed
qed

lemma normalize_segments_snoc:
  "t \<noteq> [] \<Longrightarrow> t \<noteq> [46] \<Longrightarrow> t \<noteq> [46, 46]
   \<Longrightarrow> normalize_segments a acc (ss @ [t]) = normalize_segments a acc ss @ [t]"
  by (induction ss arbitrary: acc) (auto split: list.splits)

lemma join_slash_snoc:
  "join_slash (xs @ [t]) = (if xs = [] then t else join_slash xs @ 47 # t)"
  by (induction xs rule: join_slash.induct) auto

lemma path_normalize_suffix:
  assumes "e \<noteq> []" and "46 \<notin> set e" and "47 \<notin> set e"
  shows "\<exists>x. path_normalize (z @ 46 # e) = x @ 46 # e"
proof -
  let ?S = "split_on 47 z"
  let ?t = "last ?S @ 46 # e"
  have split: "split_on 47 (z @ 46 # e) = butlast ?S @ [?t]"
    using assms(3) split_on_snoc [of 47 "46 # e" z] by simp
  have two: "2 \<le> length ?t"
    using assms(1) by (cases e) simp_all
  then have t1: "?t \<noteq> []"
    by auto
  have t2: "?t \<noteq> [46]"
  proof
    assume "?t = [46]"
    then have "length ?t = length [46::nat]"
      by (rule arg_cong)
    with two show False
      by simp
  qed
  have t3: "?t \<noteq> [46, 46]"
  proof
    assume "?t = [46, 46]"
    then have "last ?t = 46"
      by simp
    moreover have "last ?t = last e"
      using assms(1) by simp
    ultimately have "46 \<in> set e"
      using assms(1) last_in_set [of e] by simp
    with assms(2) show False
      by simp
  qed
  let ?N = "normalize_segments (hd (z @ 46 # e) \<noteq> 47) [] (butlast ?S)"
  have norm: "normalize_segments (hd (z @ 46 # e) \<noteq> 47) [] (split_on 47 (z @ 46 # e)) = ?N @ [?t]"
    unfolding split using t1 t2 t3 by (rule normalize_segments_snoc)
  obtain y where q: "join_slash (?N @ [?t]) = y @ ?t"
    by (cases "?N = []") (auto simp: join_slash_snoc)
  have "last e \<in> set e"
    using assms(1) by (rule last_in_set)
  with assms(3) have "last e \<noteq> 47"
    by metis
  then have last: "last (z @ 46 # e) \<noteq> 47"
    using assms(1) by simp
  have "path_normalize (z @ 46 # e) = (if hd (z @ 46 # e) = 47 then [47] else []) @ y @ ?t"
    using last q t1 by (simp add: path_normalize_def norm Let_def)
  then have "path_normalize (z @ 46 # e)
               = ((if hd (z @ 46 # e) = 47 then [47] else []) @ y @ last ?S) @ 46 # e"
    by simp
  then show ?thesis
    by blast
qed

lemma path_join_suffix:
  assumes "e \<noteq> []" and "46 \<notin> set e" and "47 \<notin> set e"
  shows "\<exists>x. path_join [a, y @ 46 # e] = x @ 46 # e"
proof (cases "a = []")
  case True
  then have "path_join [a, y @ 46 # e] = path_normalize (y @ 46 # e)"
    by (simp add: path_join_def)
  then show ?thesis
    using path_normalize_suffix [OF assms] by simp
next
  case False
  then have "path_join [a, y @ 46 # e] = path_normalize ((a @ 47 # y) @ 46 # e)"
    by (simp add: path_join_def)
  then show ?thesis
    using path_normalize_suffix [OF assms, of "a @ 47 # y"] by simp
qed

lemma extension_unique:
  fixes e e' x x' :: jsstring
  assumes "x @ 46 # e = x' @ 46 # e'" and "46 \<notin> set e" and "46 \<notin> set e'"
  shows "e = e'"
proof -
  have tw: "takeWhile (\<lambda>c. c \<noteq> 46) (rev (u @ 46 # v)) = rev v"
    if "46 \<notin> set v" for u v :: jsstring
    using that by (induction v rule: rev_induct) auto
  have "rev e = takeWhile (\<lambda>c. c \<noteq> 46) (rev (x @ 46 # e))"
    using tw [OF assms(2)] by (rule sym)
  also have "\<dots> = takeWhile (\<lambda>c. c \<noteq> 46) (rev (x' @ 46 # e'))"
    by (simp only: assms(1))
  also have "\<dots> = rev e'"
    by (rule tw [OF assms(3)])
  finally show ?thesis
    by simp
qed

lemma extension_units_all:
  "list_all (\<lambda>x. snd x \<noteq> [] \<and> 46 \<notin> set (snd x) \<and> 47 \<notin> set (snd x)) LANGUAGE_EXTENSIONS"
  by (simp add: LANGUAGE_EXTENSIONS_def str_def)

lemma extension_units:
  "(language, extension) \<in> set LANGUAGE_EXTENSIONS
   \<Longrightarrow> extension \<noteq> [] \<and> 46 \<notin> set extension \<and> 47 \<notin> set extension"
  using extension_units_all by (auto simp: list_all_iff)

lemma distinct_extensions: "distinct (map snd LANGUAGE_EXTENSIONS)"
  by (simp add: LANGUAGE_EXTENSIONS_def str_def)

lemma filePathOf_suffix:
  assumes "(language, extension) \<in> set LANGUAGE_EXTENSIONS"
  shows "\<exists>x. filePathOf lc details language = x @ 46 # extension"
proof -
  have "\<exists>y. getFileName language details (toKebabCase lc (title details)) = y @ 46 # extension"
    by (simp add: getFileName_entry [OF assms] fileName_1_def)
  then obtain y where
    "getFileName language details (toKebabCase lc (title details)) = y @ 46 # extension"
    by blast
  then show ?thesis
    using extension_units [OF assms] by (simp add: filePathOf_def path_join_suffix)
qed

lemma snd_unique:
  "distinct (map snd xs) \<Longrightarrow> (a, b) \<in> set xs \<Longrightarrow> (a', b) \<in> set xs \<Longrightarrow> a = a'"
  by (induction xs) (auto simp: image_iff)

text \<open>No two languages of the table share a path, whatever the problem.\<close>

lemma distinct_filePaths:
  "distinct (map (\<lambda>x. filePathOf lc details (fst x)) LANGUAGE_EXTENSIONS)"
proof -
  have "inj_on (\<lambda>x. filePathOf lc details (fst x)) (set LANGUAGE_EXTENSIONS)"
  proof (rule inj_onI)
    fix x y
    assume x: "x \<in> set LANGUAGE_EXTENSIONS" and y: "y \<in> set LANGUAGE_EXTENSIONS"
      and eq: "filePathOf lc details (fst x) = filePathOf lc details (fst y)"
    obtain l e where xe: "x = (l, e)" by (cases x)
    obtain l' e' where ye: "y = (l', e')" by (cases y)
    obtain u where u: "filePathOf lc details l = u @ 46 # e"
      using filePathOf_suffix x xe by blast
    obtain u' where u': "filePathOf lc details l' = u' @ 46 # e'"
      using filePathOf_suffix y ye by blast
    have "e = e'"
      using eq u u' extension_units x y xe ye extension_unique [of u e u' e'] by auto
    then have "l = l'"
      using snd_unique [OF distinct_extensions] x y xe ye by blast
    with \<open>e = e'\<close> show "x = y"
      by (simp add: xe ye)
  qed
  moreover have "distinct LANGUAGE_EXTENSIONS"
    using distinct_languages by (simp add: distinct_map)
  ultimately show ?thesis
    by (simp add: distinct_map)
qed

lemma languages_with_Cons:
  "languages_with lc env details s0 (x # xs) out =
     (if language_outcome lc env details s0 (fst x) = out
      then [filePathOf lc details (fst x)] else [])
     @ languages_with lc env details s0 xs out"
  by (simp add: languages_with_def)

lemma set_languages_with:
  "set (languages_with lc env details s0 xs out) \<subseteq> (\<lambda>x. filePathOf lc details (fst x)) ` set xs"
  by (auto simp: languages_with_def)

lemma createSolutionFiles_loop_closed:
  assumes "distinct (map (\<lambda>x. filePathOf lc details (fst x)) entries)"
    and "\<forall>x \<in> set entries. files s (filePathOf lc details (fst x))
                               = files s0 (filePathOf lc details (fst x))"
  shows "\<exists>r s'. createSolutionFiles_loop lc env details (toKebabCase lc (title details))
                    entries result s = (Inr r, s')
     \<and> created r = created result @ languages_with lc env details s0 entries Created
     \<and> updated r = updated result @ languages_with lc env details s0 entries Updated
     \<and> skipped r = skipped result @ languages_with lc env details s0 entries Skipped
     \<and> trace s' = trace s @ concat (map (\<lambda>x. language_events lc env details s0 (fst x)) entries)
     \<and> (\<forall>x \<in> set entries. language_outcome lc env details s0 (fst x) \<in> {Created, Updated}
            \<longrightarrow> files s' (filePathOf lc details (fst x)) = Some (language_text details (fst x)))
     \<and> (\<forall>p. p \<notin> set (languages_with lc env details s0 entries Created)
                  \<union> set (languages_with lc env details s0 entries Updated)
            \<longrightarrow> files s' p = files s p)"
  using assms
proof (induction entries arbitrary: result s)
  case Nil
  then show ?case
    by (simp add: io_return_def languages_with_def)
next
  case (Cons x xs)
  obtain l e where x: "x = (l, e)"
    by (cases x)
  let ?P = "\<lambda>y. filePathOf lc details (fst y)"
  let ?o = "language_outcome lc env details s0 l"
  have same: "files s (filePathOf lc details l) = files s0 (filePathOf lc details l)"
    using Cons.prems(2) x by simp
  obtain r1 s1 where turn:
    "createSolutionFile lc env details (toKebabCase lc (title details)) l result s = (Inr r1, s1)"
    and c1: "created r1 = created result @ (if ?o = Created then [filePathOf lc details l] else [])"
    and u1: "updated r1 = updated result @ (if ?o = Updated then [filePathOf lc details l] else [])"
    and k1: "skipped r1 = skipped result @ (if ?o = Skipped then [filePathOf lc details l] else [])"
    and t1: "trace s1 = trace s @ language_events lc env details s0 l"
    and f1: "files s1 = (if ?o \<in> {Created, Updated}
                         then (files s)(filePathOf lc details l \<mapsto> language_text details l)
                         else files s)"
    using createSolutionFile_turn [OF same] by blast
  have fresh: "filePathOf lc details l \<notin> ?P ` set xs"
    using Cons.prems(1) x by simp
  have dist: "distinct (map ?P xs)"
    using Cons.prems(1) by simp
  have agree: "\<forall>y \<in> set xs. files s1 (?P y) = files s0 (?P y)"
  proof
    fix y assume y: "y \<in> set xs"
    then have "?P y \<in> ?P ` set xs"
      by (rule imageI)
    with fresh have "?P y \<noteq> filePathOf lc details l"
      by metis
    then have "files s1 (?P y) = files s (?P y)"
      by (simp add: f1)
    then show "files s1 (?P y) = files s0 (?P y)"
      using Cons.prems(2) y by simp
  qed
  obtain r s' where loop:
    "createSolutionFiles_loop lc env details (toKebabCase lc (title details)) xs r1 s1 = (Inr r, s')"
    and c: "created r = created r1 @ languages_with lc env details s0 xs Created"
    and u: "updated r = updated r1 @ languages_with lc env details s0 xs Updated"
    and k: "skipped r = skipped r1 @ languages_with lc env details s0 xs Skipped"
    and t: "trace s' = trace s1 @ concat (map (\<lambda>x. language_events lc env details s0 (fst x)) xs)"
    and w: "\<forall>y \<in> set xs. language_outcome lc env details s0 (fst y) \<in> {Created, Updated}
              \<longrightarrow> files s' (?P y) = Some (language_text details (fst y))"
    and f: "\<forall>p. p \<notin> set (languages_with lc env details s0 xs Created)
                    \<union> set (languages_with lc env details s0 xs Updated)
              \<longrightarrow> files s' p = files s1 p"
    using Cons.IH [OF dist agree, of r1] by blast
  have notin: "filePathOf lc details l \<notin> set (languages_with lc env details s0 xs Created)
                  \<union> set (languages_with lc env details s0 xs Updated)"
    using fresh set_languages_with by blast
  have run: "createSolutionFiles_loop lc env details (toKebabCase lc (title details))
               (x # xs) result s = (Inr r, s')"
    by (simp add: x io_bind_def turn loop)
  have w0: "?o \<in> {Created, Updated}
            \<longrightarrow> files s' (filePathOf lc details l) = Some (language_text details l)"
    using f notin f1 by simp
  have f0: "\<forall>p. p \<notin> set (languages_with lc env details s0 (x # xs) Created)
                    \<union> set (languages_with lc env details s0 (x # xs) Updated)
              \<longrightarrow> files s' p = files s p"
  proof (intro allI impI)
    fix p
    assume p: "p \<notin> set (languages_with lc env details s0 (x # xs) Created)
                    \<union> set (languages_with lc env details s0 (x # xs) Updated)"
    then have "files s' p = files s1 p"
      using f by (simp add: languages_with_Cons)
    moreover have "?o \<in> {Created, Updated} \<longrightarrow> p \<noteq> filePathOf lc details l"
      using p by (auto simp: languages_with_Cons x)
    then have "files s1 p = files s p"
      by (simp add: f1)
    ultimately show "files s' p = files s p"
      by simp
  qed
  show ?case
    using run c u k t w w0 f0 c1 u1 k1 t1
    by (simp add: languages_with_Cons x)
qed

text \<open>
  \<open>FileManager.createSolutionFiles\<close> in closed form: it never fails; the three lists are
  the paths of the languages with each outcome, in the order of the table; the trace grows
  by the events of each language; the files written hold the text of their language and
  every other file is as before. All of it is told from the state the call starts in.
\<close>

lemma createSolutionFiles_closed:
  "\<exists>r s'. createSolutionFiles lc env details s = (Inr r, s')
     \<and> created r = languages_with lc env details s LANGUAGE_EXTENSIONS Created
     \<and> updated r = languages_with lc env details s LANGUAGE_EXTENSIONS Updated
     \<and> skipped r = languages_with lc env details s LANGUAGE_EXTENSIONS Skipped
     \<and> trace s' = trace s
          @ concat (map (\<lambda>x. language_events lc env details s (fst x)) LANGUAGE_EXTENSIONS)
     \<and> (\<forall>x \<in> set LANGUAGE_EXTENSIONS.
            language_outcome lc env details s (fst x) \<in> {Created, Updated}
            \<longrightarrow> files s' (filePathOf lc details (fst x)) = Some (language_text details (fst x)))
     \<and> (\<forall>p. p \<notin> set (languages_with lc env details s LANGUAGE_EXTENSIONS Created)
                  \<union> set (languages_with lc env details s LANGUAGE_EXTENSIONS Updated)
            \<longrightarrow> files s' p = files s p)"
proof -
  have agree: "\<forall>x \<in> set LANGUAGE_EXTENSIONS.
      files s (filePathOf lc details (fst x)) = files s (filePathOf lc details (fst x))"
    by simp
  show ?thesis
    using createSolutionFiles_loop_closed
      [OF distinct_filePaths agree, where result = "\<lparr>created = [], updated = [], skipped = []\<rparr>"]
    by (simp add: createSolutionFiles_def)
qed

section \<open>Claims about the files\<close>





lemma accessed_append: "accessed (a @ b) = accessed a @ accessed b"
  by (simp add: accessed_def)

lemma accessed_Nil: "accessed [] = []"
  by (simp add: accessed_def)

lemma accessed_language_events:
  "accessed (language_events lc env details s language) = [filePathOf lc details language]"
  by (cases "language_outcome lc env details s language")
     (simp_all add: language_events_def accessed_def Let_def)

lemma accessed_languages:
  "accessed (concat (map (\<lambda>x. language_events lc env details s (fst x)) entries)) =
     map (\<lambda>x. filePathOf lc details (fst x)) entries"
  by (induction entries) (simp_all add: accessed_append accessed_language_events accessed_Nil)

lemma logged_errors_append: "logged_errors (a @ b) = logged_errors a @ logged_errors b"
  by (simp add: logged_errors_def)

lemma logged_errors_Nil: "logged_errors [] = []"
  by (simp add: logged_errors_def)

lemma logged_errors_language_events:
  "logged_errors (language_events lc env details s language) =
     (if language_outcome lc env details s language = Failed
      then [filePathOf lc details language] else [])"
  by (cases "language_outcome lc env details s language")
     (simp_all add: language_events_def logged_errors_def Let_def)

lemma logged_errors_languages:
  "logged_errors (concat (map (\<lambda>x. language_events lc env details s (fst x)) entries)) =
     languages_with lc env details s entries Failed"
  by (induction entries)
     (simp_all add: logged_errors_append logged_errors_language_events languages_with_def
        logged_errors_Nil)

lemma distinct_three_filters:
  assumes "distinct (map f xs)"
    and "\<And>x. \<not> (A x \<and> B x)" and "\<And>x. \<not> (A x \<and> C x)" and "\<And>x. \<not> (B x \<and> C x)"
  shows "distinct (map f (filter A xs) @ map f (filter B xs) @ map f (filter C xs))"
proof -
  have inj: "inj_on f (set xs)" and d: "distinct xs"
    using assms(1) by (simp_all add: distinct_map)
  have each: "distinct (map f (filter P xs))" for P
    using assms(1) by (rule distinct_map_filter)
  have apart: "f ` set (filter P xs) \<inter> f ` set (filter Q xs) = {}"
    if "\<And>x. \<not> (P x \<and> Q x)" for P Q
  proof (rule ccontr)
    assume "f ` set (filter P xs) \<inter> f ` set (filter Q xs) \<noteq> {}"
    then obtain x y where "x \<in> set xs" "P x" "y \<in> set xs" "Q y" "f x = f y"
      by auto
    with inj have "x = y"
      by (auto dest: inj_onD)
    with \<open>P x\<close> \<open>Q y\<close> that show False
      by blast
  qed
  show ?thesis
    using each apart [OF assms(2)] apart [OF assms(3)] apart [OF assms(4)]
    by (simp add: Int_Un_distrib)
qed


lemma example_python_path:
  "filePathOf asciiLower example_details (str ''python'') = str ''python/easy/1-two-sum.py''"
  by (simp add: filePathOf_def dirPathOf_def getFileName_def example_details_def
        toKebabCase_def asciiLower_def lower_unit_def is_space_def slug_unit_def
        LANGUAGE_EXTENSIONS_def path_join_def path_normalize_def str_def)

lemma example_python_dir:
  "dirPathOf asciiLower example_details (str ''python'') = str ''python/easy''"
  by (simp add: dirPathOf_def example_details_def asciiLower_def lower_unit_def
        path_join_def path_normalize_def str_def)

lemma example_python_text:
  "language_text example_details (str ''python'')
     = [34, 34, 34, 10] @ str ''Given an array.'' @ [10, 34, 34, 34, 10, 10]"
  by (simp add: language_text_def formatProblemFile_def snippetCode_def example_details_def
        COMMENT_STYLES_def htmlToText_def tag_end_def startsWith_def trim_def is_space_def
        str_def)

lemma example_python_scan:
  "scan_lines False (split_on 10 ([34, 34, 34, 10] @ str ''Given an array.'' @ [10, 34, 34, 34, 10, 10]))"
  by (simp add: startsWith_def trim_def is_space_def str_def)

lemma hasContent_eq:
  "hasContent env p s =
     (Inr (case files s p of
             None \<Rightarrow> False
           | Some text \<Rightarrow> \<not> unreadable env p \<and> length (nonCommentContent text) > 0),
      s\<lparr>trace := trace s @ [ReadFile p]\<rparr>)"
  by (auto simp: hasContent_def fs_readFile_def io_defs split: option.splits)


lemma languages_with_member:
  "x \<in> set entries \<Longrightarrow> language_outcome lc env details s (fst x) = out
   \<Longrightarrow> filePathOf lc details (fst x) \<in> set (languages_with lc env details s entries out)"
  by (auto simp: languages_with_def)



lemma challengeFile_1_eq:
  "challengeFile_1 lc env details kebabTitle language extension result s =
     (let dirPath = path_join [language, lc (difficulty details)];
          filePath = path_join [dirPath, fileName_1 details kebabTitle language extension];
          text = formatProblemFile language (content details) (snippetCode details language)
      in case files s filePath of
           Some old \<Rightarrow>
             if \<not> unreadable env filePath \<and> length (nonCommentContent old) > 0
             then (Inr (result\<lparr>skipped := skipped result @ [filePath]\<rparr>),
                   s\<lparr>trace := trace s @ [Access filePath, ReadFile filePath]\<rparr>)
             else if write_fails env filePath
             then (Inl (Rejected ''writeFile''),
                   s\<lparr>trace := trace s @ [Access filePath, ReadFile filePath]\<rparr>)
             else (Inr (result\<lparr>updated := updated result @ [filePath]\<rparr>),
                   s\<lparr>trace := trace s @ [Access filePath, ReadFile filePath,
                                          WriteFile filePath text],
                     files := (files s)(filePath \<mapsto> text)\<rparr>)
         | None \<Rightarrow>
             if mkdir_fails env dirPath
             then (Inl (Rejected ''mkdir''),
                   s\<lparr>trace := trace s @ [Access filePath, Mkdir dirPath]\<rparr>)
             else if write_fails env filePath
             then (Inl (Rejected ''writeFile''),
                   s\<lparr>trace := trace s @ [Access filePath, Mkdir dirPath]\<rparr>)
             else (Inr (if filePath \<in> set (updated result) then result
                        else result\<lparr>created := created result @ [filePath]\<rparr>),
                   s\<lparr>trace := trace s @ [Access filePath, Mkdir dirPath,
                                          WriteFile filePath text],
                     files := (files s)(filePath \<mapsto> text)\<rparr>))"
  by (auto simp: challengeFile_1_def Let_def hasContent_eq fs_access_def fs_mkdir_def
        fs_writeFile_def io_defs split: option.splits)

lemma createSolutionFile_1_eq:
  "createSolutionFile_1 lc env details kebabTitle language extension s =
     (let dirPath = path_join [language, lc (difficulty details)];
          filePath = path_join [dirPath, fileName_1 details kebabTitle language extension]
      in if mkdir_fails env dirPath
         then (Inr (), s\<lparr>trace := trace s @ [Mkdir dirPath, LogFileError filePath]\<rparr>)
         else
           (case find (\<lambda>sn. langSlug sn = language) (codeSnippets details) of
              None \<Rightarrow> (Inr (), s\<lparr>trace := trace s @ [Mkdir dirPath]\<rparr>)
            | Some snippet \<Rightarrow>
                if write_fails env filePath
                then (Inr (), s\<lparr>trace := trace s @ [Mkdir dirPath, LogFileError filePath]\<rparr>)
                else (Inr (), s\<lparr>trace := trace s @ [Mkdir dirPath,
                                       WriteFile filePath
                                         (formatProblemFile language (content details) (code snippet))],
                                files := (files s)(filePath \<mapsto>
                                   formatProblemFile language (content details) (code snippet))\<rparr>)))"
  by (auto simp: createSolutionFile_1_def Let_def fs_mkdir_def fs_writeFile_def io_defs
        split: option.splits)








text \<open>
  C1. The claim does not hold of the code: the scan takes a line for a comment when it
  is a \<open>"""\<close> line, but not the lines between two of them. The problem has no snippet;
  the first run, from no files, writes the python file with the statement between
  \<open>"""\<close> lines and nothing else; the second run finds that file substantive and skips
  it instead of updating it.
\<close>

theorem python_placeholder_skipped_on_second_run:
  "codeSnippets example_details = []
   \<and> files example_state = Map.empty
   \<and> files after_first_run (str ''python/easy/1-two-sum.py'')
        = Some ([34, 34, 34, 10] @ str ''Given an array.'' @ [10, 34, 34, 34, 10, 10])
   \<and> str ''python/easy/1-two-sum.py''
        \<in> set (skipped (projr (fst (createSolutionFiles asciiLower example_env example_details
                                       after_first_run))))
   \<and> str ''python/easy/1-two-sum.py''
        \<notin> set (updated (projr (fst (createSolutionFiles asciiLower example_env example_details
                                       after_first_run))))
   \<and> files (snd (createSolutionFiles asciiLower example_env example_details after_first_run))
        (str ''python/easy/1-two-sum.py'')
        = files after_first_run (str ''python/easy/1-two-sum.py'')"
proof -
  let ?P = "str ''python/easy/1-two-sum.py''"
  let ?text = "[34, 34, 34, 10] @ str ''Given an array.'' @ [10, 34, 34, 34, 10, 10]"
  let ?E = LANGUAGE_EXTENSIONS
  have entry: "(str ''python'', str ''py'') \<in> set ?E"
    by (simp add: LANGUAGE_EXTENSIONS_def)
  have path: "filePathOf asciiLower example_details (str ''python'') = ?P"
    by (rule example_python_path)
  obtain r1 s1 where run1:
    "createSolutionFiles asciiLower example_env example_details example_state = (Inr r1, s1)"
    and w1: "\<forall>x \<in> set ?E.
        language_outcome asciiLower example_env example_details example_state (fst x)
          \<in> {Created, Updated}
        \<longrightarrow> files s1 (filePathOf asciiLower example_details (fst x))
            = Some (language_text example_details (fst x))"
    using createSolutionFiles_closed [of asciiLower example_env example_details example_state]
    by blast
  have "language_outcome asciiLower example_env example_details example_state (str ''python'')
          = Created"
    by (simp add: language_outcome_def outcome_of_def substantive_def example_state_def
          example_env_def)
  with w1 entry have "files s1 (filePathOf asciiLower example_details (str ''python''))
            = Some (language_text example_details (str ''python''))"
    by force
  then have first: "files after_first_run ?P = Some ?text"
    by (simp add: after_first_run_def run1 path example_python_text)
  let ?s = after_first_run
  obtain r2 s2 where run2:
    "createSolutionFiles asciiLower example_env example_details ?s = (Inr r2, s2)"
    and u2: "updated r2 = languages_with asciiLower example_env example_details ?s ?E Updated"
    and k2: "skipped r2 = languages_with asciiLower example_env example_details ?s ?E Skipped"
    and c2: "created r2 = languages_with asciiLower example_env example_details ?s ?E Created"
    and f2: "\<forall>p. p \<notin> set (languages_with asciiLower example_env example_details ?s ?E Created)
                  \<union> set (languages_with asciiLower example_env example_details ?s ?E Updated)
            \<longrightarrow> files s2 p = files ?s p"
    using createSolutionFiles_closed [of asciiLower example_env example_details ?s]
    by blast
  have sub: "substantive example_env ?s ?P"
    using first example_python_scan by (simp add: substantive_def example_env_def)
  then have o: "language_outcome asciiLower example_env example_details ?s (str ''python'')
                  = Skipped"
    by (simp add: language_outcome_def outcome_of_def path)
  have sk: "?P \<in> set (skipped r2)"
    unfolding k2
    using languages_with_member [OF entry, of asciiLower example_env example_details ?s Skipped] o
    by (simp add: path)
  have all: "distinct (created r2 @ updated r2 @ skipped r2)"
    unfolding c2 u2 k2 languages_with_def
    by (rule distinct_three_filters [OF distinct_filePaths]) simp_all
  with sk have nu: "?P \<notin> set (updated r2)" and nc: "?P \<notin> set (created r2)"
    by auto
  have same: "files s2 ?P = files ?s ?P"
    using f2 nu nc by (simp add: c2 u2)
  have "codeSnippets example_details = []" "files example_state = Map.empty"
    by (simp_all add: example_details_def example_state_def)
  with first sk nu same show ?thesis
    by (simp add: run2)
qed

lemma example_kebab: "toKebabCase asciiLower (str ''Two Sum'') = str ''two-sum''"
  by (simp add: toKebabCase_def asciiLower_def lower_unit_def is_space_def slug_unit_def str_def)

lemma example_python_path_1:
  "path_join [str ''python/easy'',
              fileName_1 \<lparr>content = c, codeSnippets = sn, difficulty = str ''Easy'',
                           questionId = str ''1'', title = str ''Two Sum'',
                           titleSlug = ts\<rparr>
                (str ''two-sum'') (str ''python'') (str ''py'')]
     = str ''python/easy/1-two-sum.py''"
  by (simp add: fileName_1_def asciiLower_def lower_unit_def path_join_def path_normalize_def
        str_def)

lemma example_python_dir_1:
  "path_join [str ''python'', asciiLower (str ''Easy'')] = str ''python/easy''"
  by (simp add: asciiLower_def lower_unit_def path_join_def path_normalize_def str_def)

text \<open>
  C8. The claim does not hold of the first script: \<open>browser.newPage()\<close> is called
  before the \<open>try\<close> whose \<open>finally\<close> closes the browser. When the browser starts and
  the page cannot be opened, the function fails and \<open>browser.close()\<close> is never called.
\<close>

theorem getDailyChallengeWithPuppeteer_leaves_browser_open:
  "launch_ok no_page_env
   \<and> getDailyLeetcodeChallengeWithPuppeteer no_page_env example_state
       = (Inl (Rejected ''browser.newPage''), example_state\<lparr>trace := [Launch, NewPage]\<rparr>)
   \<and> BrowserClose \<notin> set (trace (snd (getDailyLeetcodeChallengeWithPuppeteer no_page_env
                                          example_state)))"
  by (simp add: getDailyLeetcodeChallengeWithPuppeteer_def no_page_env_def example_env_def
        example_state_def io_defs)

text \<open>
  C3. The claim does not hold of the first script's main loop: \<open>writeFile\<close> is outside
  any handler of the loop. With a write failure for the python file alone, the loop ends
  at the first language with that error, the thirteen other languages are never looked
  at, the outer handler starts the browser, and, the page showing no challenge, the
  process exits with code 1.
\<close>

theorem write_failure_aborts_first_script:
  "write_fails write_failure_env (str ''python/easy/1-two-sum.py'')
   \<and> challengeFiles_1_loop asciiLower write_failure_env example_details
        (toKebabCase asciiLower (title example_details)) LANGUAGE_EXTENSIONS
        \<lparr>created = [], updated = [], skipped = []\<rparr> example_state
       = (Inl (Rejected ''writeFile''),
          example_state\<lparr>trace := [Access (str ''python/easy/1-two-sum.py''),
                                    Mkdir (str ''python/easy'')]\<rparr>)
   \<and> main_1 asciiLower write_failure_env example_state
       = (1, example_state\<lparr>trace := [HttpGetHome, QueryOfToday, QueryContent (str ''two-sum''),
                                       QueryEditorData (str ''two-sum''),
                                       Access (str ''python/easy/1-two-sum.py''),
                                       Mkdir (str ''python/easy''),
                                       Launch, NewPage, BrowserClose],
                            fetches := 1\<rparr>)"
proof -
  have wf: "write_fails write_failure_env (str ''python/easy/1-two-sum.py'')"
    by (simp add: write_failure_env_def)
  have turn: "challengeFile_1 asciiLower write_failure_env
        \<lparr>content = str ''<p>Given an array.</p>'', codeSnippets = [],
           difficulty = str ''Easy'', questionId = str ''1'', title = str ''Two Sum'',
           titleSlug = str ''two-sum''\<rparr>
        (str ''two-sum'') (str ''python'') (str ''py'') result s
      = (Inl (Rejected ''writeFile''),
         s\<lparr>trace := trace s @ [Access (str ''python/easy/1-two-sum.py''),
                                 Mkdir (str ''python/easy'')]\<rparr>)"
    if "files s (str ''python/easy/1-two-sum.py'') = None" for result s
    using that
    by (simp add: challengeFile_1_eq Let_def example_python_path_1 example_python_dir_1
          write_failure_env_def example_env_def)
  have loop: "challengeFiles_1_loop asciiLower write_failure_env
        \<lparr>content = str ''<p>Given an array.</p>'', codeSnippets = [],
           difficulty = str ''Easy'', questionId = str ''1'', title = str ''Two Sum'',
           titleSlug = str ''two-sum''\<rparr>
        (str ''two-sum'') LANGUAGE_EXTENSIONS result s
      = (Inl (Rejected ''writeFile''),
         s\<lparr>trace := trace s @ [Access (str ''python/easy/1-two-sum.py''),
                                 Mkdir (str ''python/easy'')]\<rparr>)"
    if "files s (str ''python/easy/1-two-sum.py'') = None" for result s
    by (simp add: LANGUAGE_EXTENSIONS_def io_bind_def turn [OF that])
  have env_fields:
    "csrfTokenMatch write_failure_env = Inr (Some (str ''token''))"
    "questionOfToday write_failure_env
       = Inr \<lparr>dc_questionId = str ''1'', dc_title = str ''Two Sum'',
               dc_titleSlug = str ''two-sum'', dc_difficulty = str ''Easy''\<rparr>"
    "questionContent write_failure_env
       = (\<lambda>k slug. Inr \<lparr>qc_content = str ''<p>Given an array.</p>'',
                           qc_questionId = str ''1'', qc_title = str ''Two Sum'',
                           qc_difficulty = str ''Easy''\<rparr>)"
    "questionEditorData write_failure_env = (\<lambda>k slug. Inr [])"
    "launch_ok write_failure_env" "newPage_ok write_failure_env"
    "setUserAgent_ok write_failure_env" "goto_ok write_failure_env"
    "waitForSelector_ok write_failure_env" "evaluate write_failure_env = Inr None"
    "browser_close_ok write_failure_env"
    by (simp_all add: write_failure_env_def example_env_def)
  have a: "challengeFiles_1_loop asciiLower write_failure_env example_details
        (toKebabCase asciiLower (title example_details)) LANGUAGE_EXTENSIONS
        \<lparr>created = [], updated = [], skipped = []\<rparr> example_state
       = (Inl (Rejected ''writeFile''),
          example_state\<lparr>trace := [Access (str ''python/easy/1-two-sum.py''),
                                    Mkdir (str ''python/easy'')]\<rparr>)"
    using loop [of example_state "\<lparr>created = [], updated = [], skipped = []\<rparr>"]
    by (simp add: example_details_def example_kebab example_state_def)
  have b: "main_1 asciiLower write_failure_env example_state
       = (1, example_state\<lparr>trace := [HttpGetHome, QueryOfToday, QueryContent (str ''two-sum''),
                                       QueryEditorData (str ''two-sum''),
                                       Access (str ''python/easy/1-two-sum.py''),
                                       Mkdir (str ''python/easy''),
                                       Launch, NewPage, BrowserClose],
                            fetches := 1\<rparr>)"
    by (simp add: main_1_def getDailyLeetcodeChallenge_def fetchCsrfToken_def
          GraphQLClient_query_def next_fetch_def promise_all2_def
          getDailyLeetcodeChallengeWithPuppeteer_def io_defs loop example_kebab
          env_fields example_state_def)
  from wf a b show ?thesis
    by simp
qed


subsection \<open>The lists of the first script's loop\<close>








section \<open>Properties of the orchestrators\<close>

lemma acquisition_events_append:
  "acquisition_events (a @ b) = acquisition_events a @ acquisition_events b"
  by (simp add: acquisition_events_def)

lemma emitsI:
  "(\<And>s. \<exists>t. trace (snd (m s)) = trace s @ t \<and> acquisition_events t = X) \<Longrightarrow> emits m X"
  by (simp add: emits_def)

lemma emitsD:
  "emits m X \<Longrightarrow> \<exists>t. trace (snd (m s)) = trace s @ t \<and> acquisition_events t = X"
  by (simp add: emits_def)

lemma emits_return: "emits (io_return x) []"
  by (simp add: emits_def io_return_def acquisition_events_def)

lemma emits_throw: "emits (io_throw e) []"
  by (simp add: emits_def io_throw_def acquisition_events_def)

lemma emits_emit: "emits (emit e) (acquisition_events [e])"
  by (simp add: emits_def emit_def)

lemma emits_step: "emits (step ok msg) []"
  by (simp add: step_def emits_return emits_throw)

text \<open>A computation that emits \<open>X\<close>, followed by one that emits nothing more.\<close>

lemma emits_bind:
  assumes "emits m X" and "\<And>x. emits (f x) []"
  shows "emits (io_bind m f) X"
proof (rule emitsI)
  fix s
  obtain t where t: "trace (snd (m s)) = trace s @ t" "acquisition_events t = X"
    using emitsD [OF assms(1)] by blast
  show "\<exists>t. trace (snd (io_bind m f s)) = trace s @ t \<and> acquisition_events t = X"
  proof (cases "m s")
    case (Pair r s1)
    show ?thesis
    proof (cases r)
      case (Inl e)
      with Pair t show ?thesis
        by (auto simp: io_bind_def)
    next
      case (Inr x)
      obtain u where u: "trace (snd (f x s1)) = trace s1 @ u" "acquisition_events u = []"
        using emitsD [OF assms(2)] by blast
      with Pair Inr t have "trace (snd (io_bind m f s)) = trace s @ (t @ u)
          \<and> acquisition_events (t @ u) = X"
        by (simp add: io_bind_def acquisition_events_append)
      then show ?thesis
        by blast
    qed
  qed
qed

lemma emits_catch:
  assumes "emits m X" and "\<And>e. emits (h e) []"
  shows "emits (try_catch m h) X"
proof (rule emitsI)
  fix s
  obtain t where t: "trace (snd (m s)) = trace s @ t" "acquisition_events t = X"
    using emitsD [OF assms(1)] by blast
  show "\<exists>t. trace (snd (try_catch m h s)) = trace s @ t \<and> acquisition_events t = X"
  proof (cases "m s")
    case (Pair r s1)
    show ?thesis
    proof (cases r)
      case (Inr x)
      with Pair t show ?thesis
        by (auto simp: try_catch_def)
    next
      case (Inl e)
      obtain u where u: "trace (snd (h e s1)) = trace s1 @ u" "acquisition_events u = []"
        using emitsD [OF assms(2)] by blast
      with Pair Inl t have "trace (snd (try_catch m h s)) = trace s @ (t @ u)
          \<and> acquisition_events (t @ u) = X"
        by (simp add: try_catch_def acquisition_events_append)
      then show ?thesis
        by blast
    qed
  qed
qed

lemma emits_finally:
  assumes "emits m X" and "emits fin []"
  shows "emits (try_finally m fin) X"
proof (rule emitsI)
  fix s
  obtain t where t: "trace (snd (m s)) = trace s @ t" "acquisition_events t = X"
    using emitsD [OF assms(1)] by blast
  obtain r s1 where m: "m s = (r, s1)"
    by (cases "m s")
  obtain u where u: "trace (snd (fin s1)) = trace s1 @ u" "acquisition_events u = []"
    using emitsD [OF assms(2)] by blast
  have "trace (snd (try_finally m fin s)) = trace s @ (t @ u)
          \<and> acquisition_events (t @ u) = X"
    using m t u
    by (auto simp: try_finally_def acquisition_events_append split: prod.splits sum.splits)
  then show "\<exists>t. trace (snd (try_finally m fin s)) = trace s @ t \<and> acquisition_events t = X"
    by blast
qed

lemma emits_all2:
  assumes "emits p []" and "emits q []"
  shows "emits (promise_all2 p q) []"
proof (rule emitsI)
  fix s
  obtain r1 s1 where p: "p s = (r1, s1)"
    by (cases "p s")
  obtain r2 s2 where q: "q s1 = (r2, s2)"
    by (cases "q s1")
  obtain t where t: "trace s1 = trace s @ t" "acquisition_events t = []"
    using emitsD [OF assms(1), of s] p by auto
  obtain u where u: "trace s2 = trace s1 @ u" "acquisition_events u = []"
    using emitsD [OF assms(2), of s1] q by auto
  have "trace (snd (promise_all2 p q s)) = trace s @ (t @ u)
          \<and> acquisition_events (t @ u) = []"
    using p q t u
    by (auto simp: promise_all2_def acquisition_events_append split: sum.splits)
  then show "\<exists>t. trace (snd (promise_all2 p q s)) = trace s @ t \<and> acquisition_events t = []"
    by blast
qed

lemma emits_call: "emits (call e ok msg) (acquisition_events [e])"
  unfolding call_def by (rule emits_bind [OF emits_emit]) (rule emits_step)

lemma emits_query: "emits (GraphQLClient_query q response) (acquisition_events [q])"
  unfolding GraphQLClient_query_def
  by (rule emits_bind [OF emits_emit]) (auto split: sum.splits intro: emits_throw emits_return)

lemma emits_next_fetch: "emits next_fetch []"
  by (simp add: emits_def next_fetch_def acquisition_events_def)

lemma emits_details_queries:
  "emits (promise_all2
            (GraphQLClient_query (QueryContent slug) c)
            (GraphQLClient_query (QueryEditorData slug) d)) []"
  using emits_query [of "QueryContent slug" c] emits_query [of "QueryEditorData slug" d]
  by (intro emits_all2) (simp_all add: acquisition_events_def)

lemma emits_getProblemDetails: "emits (getProblemDetails env slug) []"
  unfolding getProblemDetails_def
proof (rule emits_bind [OF emits_next_fetch])
  fix k
  show "emits (io_bind (promise_all2
                 (GraphQLClient_query (QueryContent slug) (questionContent env k slug))
                 (GraphQLClient_query (QueryEditorData slug) (questionEditorData env k slug)))
              (\<lambda>(contentResponse, snippetsResponse).
                 io_return \<lparr>content = qc_content contentResponse,
                            codeSnippets = snippetsResponse,
                            difficulty = qc_difficulty contentResponse,
                            questionId = qc_questionId contentResponse,
                            title = qc_title contentResponse,
                            titleSlug = slug\<rparr>)) []"
    by (rule emits_bind [OF emits_details_queries]) (auto intro: emits_return)
qed

lemma acquisition_language_events:
  "acquisition_events (language_events lc env details s language) = []"
  by (cases "language_outcome lc env details s language")
     (simp_all add: language_events_def acquisition_events_def Let_def)

lemma acquisition_events_Nil: "acquisition_events [] = []"
  by (simp add: acquisition_events_def)

lemma acquisition_languages:
  "acquisition_events (concat (map (\<lambda>x. language_events lc env details s (fst x)) entries)) = []"
  by (induction entries)
     (simp_all add: acquisition_events_append acquisition_language_events acquisition_events_Nil)

lemma emits_createSolutionFiles: "emits (createSolutionFiles lc env details) []"
proof (rule emitsI)
  fix s
  obtain r s' where "createSolutionFiles lc env details s = (Inr r, s')"
    and "trace s' = trace s
          @ concat (map (\<lambda>x. language_events lc env details s (fst x)) LANGUAGE_EXTENSIONS)"
    using createSolutionFiles_closed [of lc env details s] by blast
  then show "\<exists>t. trace (snd (createSolutionFiles lc env details s)) = trace s @ t
                \<and> acquisition_events t = []"
    using acquisition_languages by auto
qed

lemma emits_command: "emits (CommandExecutor_execute env slug) []"
  using emits_call [of "Command slug"]
  by (simp add: CommandExecutor_execute_def acquisition_events_def)

lemma emits_initialize: "emits (PuppeteerScraper_initialize env) [Launch]"
proof -
  have "emits (call Launch (launch_ok env) ''puppeteer.launch'') [Launch]"
    using emits_call [of Launch] by (simp add: acquisition_events_def)
  moreover have "emits (\<lambda>s. (Inr (), s\<lparr>browser := True\<rparr>)) []"
    by (simp add: emits_def acquisition_events_def)
  ultimately show ?thesis
    unfolding PuppeteerScraper_initialize_def by (rule emits_bind)
qed

lemma emits_page_script:
  "emits (io_bind (step a ''page.setUserAgent'')
            (\<lambda>_. io_bind (step b ''page.setViewport'')
            (\<lambda>_. io_bind (step c ''page.goto'')
            (\<lambda>_. io_bind (step d ''page.waitForSelector'')
            (\<lambda>_. case ev of
                    Inl e \<Rightarrow> io_throw e
                  | Inr None \<Rightarrow>
                      io_throw (LeetCodeError ''Failed to extract daily challenge slug'')
                  | Inr (Some slug) \<Rightarrow>
                      if slug = []
                      then io_throw (LeetCodeError ''Failed to extract daily challenge slug'')
                      else io_return slug))))) []"
  by (intro emits_bind emits_step)
     (auto split: sum.splits option.splits intro: emits_throw emits_return)

lemma emits_scrape: "emits (PuppeteerScraper_getDailyChallenge env) []"
proof (rule emitsI)
  fix s
  let ?inner = "io_bind (call NewPage (newPage_ok env) ''browser.newPage'')
          (\<lambda>_. try_finally
                  (io_bind (step (setUserAgent_ok env) ''page.setUserAgent'')
                     (\<lambda>_. io_bind (step (setViewport_ok env) ''page.setViewport'')
                     (\<lambda>_. io_bind (step (goto_ok env) ''page.goto'')
                     (\<lambda>_. io_bind (step (waitForSelector_ok env) ''page.waitForSelector'')
                     (\<lambda>_. case evaluate env of
                             Inl e \<Rightarrow> io_throw e
                           | Inr None \<Rightarrow>
                               io_throw (LeetCodeError ''Failed to extract daily challenge slug'')
                           | Inr (Some slug) \<Rightarrow>
                               if slug = []
                               then io_throw
                                      (LeetCodeError ''Failed to extract daily challenge slug'')
                               else io_return slug)))))
                  (call PageClose (page_close_ok env) ''page.close''))"
  have close: "emits (call PageClose (page_close_ok env) ''page.close'') []"
    using emits_call [of PageClose] by (simp add: acquisition_events_def)
  have new: "emits (call NewPage (newPage_ok env) ''browser.newPage'') []"
    using emits_call [of NewPage] by (simp add: acquisition_events_def)
  have "emits ?inner []"
    by (rule emits_bind [OF new]) (rule emits_finally [OF emits_page_script close])
  then obtain t where "trace (snd (?inner s)) = trace s @ t" "acquisition_events t = []"
    using emitsD by blast
  then show "\<exists>t. trace (snd (PuppeteerScraper_getDailyChallenge env s)) = trace s @ t
                \<and> acquisition_events t = []"
    by (cases "browser s")
       (auto simp: PuppeteerScraper_getDailyChallenge_def io_throw_def acquisition_events_def)
qed

lemma emits_cleanup: "emits (PuppeteerScraper_cleanup env) []"
proof (rule emitsI)
  fix s
  let ?close = "io_bind (call BrowserClose (browser_close_ok env) ''browser.close'')
             (\<lambda>_ s'. (Inr (), s'\<lparr>browser := False\<rparr>))"
  have "emits (call BrowserClose (browser_close_ok env) ''browser.close'') []"
    using emits_call [of BrowserClose] by (simp add: acquisition_events_def)
  moreover have "emits (\<lambda>s'. (Inr (), s'\<lparr>browser := False\<rparr>)) []"
    by (simp add: emits_def acquisition_events_def)
  ultimately have "emits ?close []"
    by (rule emits_bind)
  then obtain t where "trace (snd (?close s)) = trace s @ t" "acquisition_events t = []"
    using emitsD by blast
  then show "\<exists>t. trace (snd (PuppeteerScraper_cleanup env s)) = trace s @ t
                \<and> acquisition_events t = []"
    by (cases "browser s") (auto simp: PuppeteerScraper_cleanup_def acquisition_events_def)
qed

text \<open>The fallback of the second script launches the browser once.\<close>

lemma emits_fallback: "emits (getDailyChallengeViaPuppeteer env) [Launch]"
  unfolding getDailyChallengeViaPuppeteer_def
proof (rule emits_finally [OF _ emits_cleanup], rule emits_bind [OF emits_initialize])
  fix u :: unit
  show "emits (io_bind (PuppeteerScraper_getDailyChallenge env)
          (\<lambda>slug. io_bind (getProblemDetails env slug)
          (\<lambda>details. io_return \<lparr>dc_questionId = questionId details,
                                  dc_title = title details,
                                  dc_titleSlug = titleSlug details,
                                  dc_difficulty = difficulty details\<rparr>))) []"
    by (intro emits_bind emits_scrape emits_getProblemDetails emits_return)
qed

lemma emits_materialize:
  "emits (io_bind (getProblemDetails env slug)
          (\<lambda>problemDetails.
             io_bind (createSolutionFiles lc env problemDetails)
          (\<lambda>result.
             try_catch (CommandExecutor_execute env slug)
                       (\<lambda>cmdError. io_return ())))) []"
  by (intro emits_bind emits_getProblemDetails emits_createSolutionFiles emits_catch
        emits_command emits_return)

lemma api_outcome:
  "\<exists>t. trace (snd (getDailyChallengeViaAPI env s)) = trace s @ t
       \<and> (t = [HttpGetHome] \<or> t = [HttpGetHome, QueryOfToday])
       \<and> isl (fst (getDailyChallengeViaAPI env s)) = api_acquisition_fails env"
  by (auto simp: getDailyChallengeViaAPI_def GraphQLClient_initialize_def
        GraphQLClient_query_def api_acquisition_fails_def io_defs
        split: sum.splits option.splits)

lemma emits_challengeFile_1:
  "emits (challengeFile_1 lc env details k language extension result) []"
  by (rule emitsI)
     (auto simp: challengeFile_1_eq Let_def acquisition_events_def split: option.splits)

lemma emits_challengeFiles_1_loop:
  "emits (challengeFiles_1_loop lc env details k entries result) []"
proof (induction entries arbitrary: result)
  case Nil
  show ?case by (simp add: emits_return)
next
  case (Cons x xs)
  obtain l e where x: "x = (l, e)" by (cases x)
  show ?case
    unfolding x challengeFiles_1_loop.simps
    by (rule emits_bind [OF emits_challengeFile_1]) (rule Cons.IH)
qed

lemma emits_createSolutionFile_1:
  "emits (createSolutionFile_1 lc env details k language extension) []"
  by (rule emitsI)
     (auto simp: createSolutionFile_1_eq Let_def acquisition_events_def split: option.splits)

lemma emits_createSolutionFiles_1_loop:
  "emits (createSolutionFiles_1_loop lc env details k entries) []"
proof (induction entries)
  case Nil
  show ?case by (simp add: emits_return)
next
  case (Cons x xs)
  obtain l e where x: "x = (l, e)" by (cases x)
  show ?case
    unfolding x createSolutionFiles_1_loop.simps
    by (rule emits_bind [OF emits_createSolutionFile_1]) (rule Cons.IH)
qed

lemma emits_createSolutionFiles_1: "emits (createSolutionFiles_1 lc env slug) []"
  unfolding createSolutionFiles_1_def
proof (rule emits_catch [OF _ emits_throw], rule emits_bind [OF emits_next_fetch])
  fix k
  have q3: "emits (GraphQLClient_query (QueryData slug) (questionData env k slug)) []"
    using emits_query [of "QueryData slug"] by (simp add: acquisition_events_def)
  have q2: "emits (GraphQLClient_query (QueryEditorData slug) (questionEditorData env k slug)) []"
    using emits_query [of "QueryEditorData slug"] by (simp add: acquisition_events_def)
  have q1: "emits (GraphQLClient_query (QueryContent slug) (questionContent env k slug)) []"
    using emits_query [of "QueryContent slug"] by (simp add: acquisition_events_def)
  have all: "emits (promise_all3
                    (GraphQLClient_query (QueryContent slug) (questionContent env k slug))
                    (GraphQLClient_query (QueryEditorData slug) (questionEditorData env k slug))
                    (GraphQLClient_query (QueryData slug) (questionData env k slug))) []"
    unfolding promise_all3_def by (intro emits_all2 q1 q2 q3)
  show "emits (io_bind
                 (promise_all3
                    (GraphQLClient_query (QueryContent slug) (questionContent env k slug))
                    (GraphQLClient_query (QueryEditorData slug) (questionEditorData env k slug))
                    (GraphQLClient_query (QueryData slug) (questionData env k slug)))
                 (\<lambda>(contentResponse, snippetsResponse, questionResponse).
                    (let details = \<lparr>content = qc_content contentResponse,
                                     codeSnippets = snippetsResponse,
                                     difficulty = qc_difficulty questionResponse,
                                     questionId = qc_questionId questionResponse,
                                     title = qc_title questionResponse,
                                     titleSlug = slug\<rparr>
                     in createSolutionFiles_1_loop lc env details
                          (toKebabCase lc (title details)) LANGUAGE_EXTENSIONS))) []"
    by (rule emits_bind [OF all]) (auto simp: Let_def intro: emits_createSolutionFiles_1_loop)
qed

lemma emits_browser_1: "emits (getDailyLeetcodeChallengeWithPuppeteer env) [Launch]"
proof -
  have launch: "emits (call Launch (launch_ok env) ''puppeteer.launch'') [Launch]"
    using emits_call [of Launch] by (simp add: acquisition_events_def)
  have new: "emits (call NewPage (newPage_ok env) ''browser.newPage'') []"
    using emits_call [of NewPage] by (simp add: acquisition_events_def)
  have close: "emits (call BrowserClose (browser_close_ok env) ''browser.close'') []"
    using emits_call [of BrowserClose] by (simp add: acquisition_events_def)
  have script: "emits (io_bind (step (setUserAgent_ok env) ''page.setUserAgent'')
                  (\<lambda>_. io_bind (step (goto_ok env) ''page.goto'')
                  (\<lambda>_. io_bind (step (waitForSelector_ok env) ''page.waitForSelector'')
                  (\<lambda>_. case evaluate env of
                          Inl e \<Rightarrow> io_throw e
                        | Inr None \<Rightarrow> io_throw (Error ''Failed to extract daily challenge'')
                        | Inr (Some dailyChallenge) \<Rightarrow>
                            if dailyChallenge = []
                            then io_throw (Error ''Failed to extract daily challenge'')
                            else io_bind (step (cookies_ok env) ''page.cookies'')
                                   (\<lambda>_. io_return dailyChallenge))))) []"
    by (intro emits_bind emits_step)
       (auto split: sum.splits option.splits
          intro: emits_throw emits_return emits_bind emits_step)
  show ?thesis
    unfolding getDailyLeetcodeChallengeWithPuppeteer_def
    by (rule emits_bind [OF launch], rule emits_bind [OF new])
       (rule emits_finally [OF script close])
qed

text \<open>The handler of the first script: the browser, then the files.\<close>

lemma emits_fallback_1:
  "emits (try_catch
            (io_bind (getDailyLeetcodeChallengeWithPuppeteer env)
               (\<lambda>slug. createSolutionFiles_1 lc env slug))
            (\<lambda>puppeteerError. io_throw (Error ''Both API and Puppeteer approaches failed'')))
     [Launch]"
  by (intro emits_catch emits_bind emits_browser_1 emits_createSolutionFiles_1 emits_throw)

lemma run_after_api_failure:
  assumes "api_acquisition_fails env"
  shows "run lc env s =
     (case getDailyChallengeViaPuppeteer env (snd (getDailyChallengeViaAPI env s)) of
        (Inl e, sf) \<Rightarrow> (Inl e, sf)
      | (Inr dailyChallenge, sf) \<Rightarrow>
          try_catch
            (io_bind (getProblemDetails env (dc_titleSlug dailyChallenge))
               (\<lambda>problemDetails.
                  io_bind (createSolutionFiles lc env problemDetails)
               (\<lambda>result.
                  try_catch (CommandExecutor_execute env (dc_titleSlug dailyChallenge))
                            (\<lambda>cmdError. io_return ()))))
            (\<lambda>error. io_throw error) sf)"
proof -
  obtain r sa where a: "getDailyChallengeViaAPI env s = (r, sa)"
    by (cases "getDailyChallengeViaAPI env s")
  have "isl r"
    using api_outcome [of env s] assms a by auto
  then obtain e where "r = Inl e"
    by (cases r) auto
  with a show ?thesis
    by (simp add: run_def try_catch_def io_bind_def io_throw_def
          split: prod.splits sum.splits)
qed

lemma api_1_outcome:
  "\<exists>t. trace (snd (api_acquisition_1 env s)) = trace s @ t
       \<and> (t = [HttpGetHome] \<or> t = [HttpGetHome, QueryOfToday])
       \<and> isl (fst (api_acquisition_1 env s)) = api_acquisition_fails env"
  by (auto simp: api_acquisition_1_def fetchCsrfToken_def GraphQLClient_query_def
        api_acquisition_fails_def io_defs split: sum.splits option.splits)

lemma io_bind_assoc: "io_bind (io_bind m f) g = io_bind m (\<lambda>x. io_bind (f x) g)"
  by (auto simp: io_bind_def fun_eq_iff split: prod.splits sum.splits)

lemma try_catch_bind_fail:
  assumes "fst (m s) = Inl e"
  shows "try_catch (io_bind m g) h s = h e (snd (m s))"
proof -
  obtain r s1 where m: "m s = (r, s1)"
    by (cases "m s")
  with assms have "r = Inl e"
    by simp
  with m show ?thesis
    by (simp add: try_catch_def io_bind_def)
qed

lemma challenge_shape:
  "\<exists>g. getDailyLeetcodeChallenge lc env =
     try_catch (io_bind (api_acquisition_1 env) g)
       (\<lambda>initialError.
          try_catch (fallback_1 lc env)
            (\<lambda>puppeteerError. io_throw (Error ''Both API and Puppeteer approaches failed'')))"
  unfolding getDailyLeetcodeChallenge_def api_acquisition_1_def fallback_1_def io_bind_assoc
  by blast

lemma challenge_after_api_failure:
  assumes "api_acquisition_fails env"
  shows "getDailyLeetcodeChallenge lc env s =
     try_catch (fallback_1 lc env)
       (\<lambda>puppeteerError. io_throw (Error ''Both API and Puppeteer approaches failed''))
       (snd (api_acquisition_1 env s))"
proof -
  have "isl (fst (api_acquisition_1 env s))"
    using api_1_outcome [of env s] assms by auto
  then obtain e where e: "fst (api_acquisition_1 env s) = Inl e"
    by (cases "fst (api_acquisition_1 env s)") auto
  obtain g where "getDailyLeetcodeChallenge lc env =
     try_catch (io_bind (api_acquisition_1 env) g)
       (\<lambda>initialError.
          try_catch (fallback_1 lc env)
            (\<lambda>puppeteerError. io_throw (Error ''Both API and Puppeteer approaches failed'')))"
    using challenge_shape by blast
  then show ?thesis
    by (simp add: try_catch_bind_fail [where m = "api_acquisition_1 env" and s = s, OF e])
qed

lemma emits_fallback_1': "emits (try_catch (fallback_1 lc env)
       (\<lambda>puppeteerError. io_throw (Error ''Both API and Puppeteer approaches failed''))) [Launch]"
  using emits_fallback_1 by (simp add: fallback_1_def)

text \<open>
  C2. When the acquisition of the identity through the API fails (in either script):
  over the whole run the token is requested once, the query for the daily challenge is
  sent at most once, and the browser is launched exactly once, after them; and when the
  fallback fails too, the process exits with code 1.
\<close>

theorem fallback_invoked_once:
  assumes "api_acquisition_fails env"
  shows "isl (fst (getDailyChallengeViaAPI env s))
     \<and> (\<exists>t. trace (snd (main lc env s)) = trace s @ t
            \<and> (acquisition_events t = [HttpGetHome, Launch]
                \<or> acquisition_events t = [HttpGetHome, QueryOfToday, Launch]))
     \<and> (isl (fst (getDailyChallengeViaPuppeteer env (snd (getDailyChallengeViaAPI env s))))
          \<longrightarrow> fst (main lc env s) = 1)
     \<and> isl (fst (api_acquisition_1 env s))
     \<and> (\<exists>t. trace (snd (main_1 lc env s)) = trace s @ t
            \<and> (acquisition_events t = [HttpGetHome, Launch]
                \<or> acquisition_events t = [HttpGetHome, QueryOfToday, Launch]))
     \<and> (isl (fst (fallback_1 lc env (snd (api_acquisition_1 env s))))
          \<longrightarrow> fst (main_1 lc env s) = 1)"
proof -
  \<comment> \<open>the second script\<close>
  obtain ta where ta: "trace (snd (getDailyChallengeViaAPI env s)) = trace s @ ta"
    "ta = [HttpGetHome] \<or> ta = [HttpGetHome, QueryOfToday]"
    and fails: "isl (fst (getDailyChallengeViaAPI env s))"
    using api_outcome [of env s] assms by auto
  let ?sa = "snd (getDailyChallengeViaAPI env s)"
  obtain rf sf where f: "getDailyChallengeViaPuppeteer env ?sa = (rf, sf)"
    by (cases "getDailyChallengeViaPuppeteer env ?sa")
  obtain tf where tf: "trace sf = trace ?sa @ tf" "acquisition_events tf = [Launch]"
    using emitsD [OF emits_fallback, of env ?sa] f by auto
  have acq_ta: "acquisition_events ta = ta"
    using ta(2) by (auto simp: acquisition_events_def)
  have two: "\<exists>t. trace (snd (main lc env s)) = trace s @ t
            \<and> (acquisition_events t = [HttpGetHome, Launch]
                \<or> acquisition_events t = [HttpGetHome, QueryOfToday, Launch])"
  proof (cases rf)
    case (Inl e)
    then have "snd (main lc env s) = sf"
      by (simp add: main_def run_after_api_failure [OF assms] f)
    then have "trace (snd (main lc env s)) = trace s @ (ta @ tf)
        \<and> acquisition_events (ta @ tf) = ta @ [Launch]"
      using ta tf acq_ta by (simp add: acquisition_events_append)
    with ta(2) show ?thesis
      by (metis append_Cons append_Nil)
  next
    case (Inr dailyChallenge)
    let ?rest = "try_catch
            (io_bind (getProblemDetails env (dc_titleSlug dailyChallenge))
               (\<lambda>problemDetails.
                  io_bind (createSolutionFiles lc env problemDetails)
               (\<lambda>result.
                  try_catch (CommandExecutor_execute env (dc_titleSlug dailyChallenge))
                            (\<lambda>cmdError. io_return ()))))
            (\<lambda>error. io_throw error)"
    have "emits ?rest []"
      by (rule emits_catch [OF emits_materialize emits_throw])
    then obtain tr where tr: "trace (snd (?rest sf)) = trace sf @ tr" "acquisition_events tr = []"
      using emitsD by blast
    have "snd (main lc env s) = snd (?rest sf)"
      using Inr by (simp add: main_def run_after_api_failure [OF assms] f split: prod.splits sum.splits)
    then have "trace (snd (main lc env s)) = trace s @ (ta @ tf @ tr)
        \<and> acquisition_events (ta @ tf @ tr) = ta @ [Launch]"
      using ta tf tr acq_ta by (simp add: acquisition_events_append)
    with ta(2) show ?thesis
      by (metis append_Cons append_Nil)
  qed
  have exit: "isl (fst (getDailyChallengeViaPuppeteer env ?sa)) \<longrightarrow> fst (main lc env s) = 1"
    by (auto simp: main_def run_after_api_failure [OF assms] f split: sum.splits)
  \<comment> \<open>the first script\<close>
  obtain tb where tb: "trace (snd (api_acquisition_1 env s)) = trace s @ tb"
    "tb = [HttpGetHome] \<or> tb = [HttpGetHome, QueryOfToday]"
    and fails_1: "isl (fst (api_acquisition_1 env s))"
    using api_1_outcome [of env s] assms by auto
  let ?sb = "snd (api_acquisition_1 env s)"
  let ?h = "try_catch (fallback_1 lc env)
       (\<lambda>puppeteerError. io_throw (Error ''Both API and Puppeteer approaches failed''))"
  obtain th where th: "trace (snd (?h ?sb)) = trace ?sb @ th" "acquisition_events th = [Launch]"
    using emitsD [OF emits_fallback_1'] by blast
  have acq_tb: "acquisition_events tb = tb"
    using tb(2) by (auto simp: acquisition_events_def)
  have "snd (main_1 lc env s) = snd (?h ?sb)"
    by (simp add: main_1_def challenge_after_api_failure [OF assms] split: prod.splits sum.splits)
  then have "trace (snd (main_1 lc env s)) = trace s @ (tb @ th)
        \<and> acquisition_events (tb @ th) = tb @ [Launch]"
    using tb th acq_tb by (simp add: acquisition_events_append)
  with tb(2) have one: "\<exists>t. trace (snd (main_1 lc env s)) = trace s @ t
            \<and> (acquisition_events t = [HttpGetHome, Launch]
                \<or> acquisition_events t = [HttpGetHome, QueryOfToday, Launch])"
    by (metis append_Cons append_Nil)
  have exit_1: "isl (fst (fallback_1 lc env ?sb)) \<longrightarrow> fst (main_1 lc env s) = 1"
    by (auto simp: main_1_def challenge_after_api_failure [OF assms] try_catch_def io_throw_def
          split: prod.splits sum.splits)
  from fails two exit fails_1 one exit_1 show ?thesis
    by blast
qed

theorem fallback_invoked_once_witness:
  "api_acquisition_fails offline_env
   \<and> trace (snd (getDailyChallengeViaAPI offline_env example_state)) = [HttpGetHome, QueryOfToday]
   \<and> isl (fst (getDailyChallengeViaPuppeteer offline_env
                  (snd (getDailyChallengeViaAPI offline_env example_state))))
   \<and> fst (main asciiLower offline_env example_state) = 1
   \<and> isl (fst (fallback_1 asciiLower offline_env
                  (snd (api_acquisition_1 offline_env example_state))))
   \<and> fst (main_1 asciiLower offline_env example_state) = 1"
proof -
  have env_fields:
    "csrfTokenMatch offline_env = Inr (Some (str ''token''))"
    "questionOfToday offline_env = Inl (Rejected ''429'')"
    "launch_ok offline_env" "newPage_ok offline_env"
    "setUserAgent_ok offline_env" "setViewport_ok offline_env" "goto_ok offline_env"
    "waitForSelector_ok offline_env" "evaluate offline_env = Inr None"
    "page_close_ok offline_env" "browser_close_ok offline_env"
    by (simp_all add: offline_env_def example_env_def)
  have fails: "api_acquisition_fails offline_env"
    by (simp add: api_acquisition_fails_def env_fields)
  have api: "getDailyChallengeViaAPI offline_env example_state
      = (Inl (Rejected ''429''),
         example_state\<lparr>trace := [HttpGetHome, QueryOfToday], csrfToken := Some (str ''token'')\<rparr>)"
    by (simp add: getDailyChallengeViaAPI_def GraphQLClient_initialize_def
          GraphQLClient_query_def io_defs env_fields example_state_def)
  have f2: "isl (fst (getDailyChallengeViaPuppeteer offline_env
                  (snd (getDailyChallengeViaAPI offline_env example_state))))"
    by (simp add: api getDailyChallengeViaPuppeteer_def PuppeteerScraper_initialize_def
          PuppeteerScraper_getDailyChallenge_def PuppeteerScraper_cleanup_def io_defs env_fields
          example_state_def)
  have api1: "api_acquisition_1 offline_env example_state
      = (Inl (Rejected ''429''), example_state\<lparr>trace := [HttpGetHome, QueryOfToday]\<rparr>)"
    by (simp add: api_acquisition_1_def fetchCsrfToken_def GraphQLClient_query_def io_defs
          env_fields example_state_def)
  have f1: "isl (fst (fallback_1 asciiLower offline_env
                  (snd (api_acquisition_1 offline_env example_state))))"
    by (simp add: api1 fallback_1_def getDailyLeetcodeChallengeWithPuppeteer_def io_defs
          env_fields example_state_def)
  show ?thesis
    using fallback_invoked_once [OF fails, of example_state asciiLower] fails f2 f1
    by (simp add: api)
qed


subsection \<open>The second script: browser teardown and failure isolation\<close>

lemma extendsI:
  "(\<And>s. \<exists>t. trace (snd (m s)) = trace s @ t \<and> browser (snd (m s)) = browser s) \<Longrightarrow> extends m"
  by (simp add: extends_def)

lemma extendsD:
  "extends m \<Longrightarrow> \<exists>t. trace (snd (m s)) = trace s @ t \<and> browser (snd (m s)) = browser s"
  by (simp add: extends_def)

lemma extends_return: "extends (io_return x)"
  by (simp add: extends_def io_return_def)

lemma extends_throw: "extends (io_throw e)"
  by (simp add: extends_def io_throw_def)

lemma extends_emit: "extends (emit e)"
  by (simp add: extends_def emit_def)

lemma extends_step: "extends (step ok msg)"
  by (simp add: step_def extends_return extends_throw)

lemma extends_next_fetch: "extends next_fetch"
  by (simp add: extends_def next_fetch_def)

lemma extends_bind:
  assumes "extends m" and "\<And>x. extends (f x)"
  shows "extends (io_bind m f)"
proof (rule extendsI)
  fix s
  obtain r s1 where m: "m s = (r, s1)"
    by (cases "m s")
  obtain t where t: "trace s1 = trace s @ t" "browser s1 = browser s"
    using extendsD [OF assms(1), of s] m by auto
  show "\<exists>t. trace (snd (io_bind m f s)) = trace s @ t \<and> browser (snd (io_bind m f s)) = browser s"
  proof (cases r)
    case (Inl e)
    with m t show ?thesis
      by (simp add: io_bind_def)
  next
    case (Inr x)
    obtain u where "trace (snd (f x s1)) = trace s1 @ u" "browser (snd (f x s1)) = browser s1"
      using extendsD [OF assms(2)] by blast
    with m Inr t have "trace (snd (io_bind m f s)) = trace s @ (t @ u)
        \<and> browser (snd (io_bind m f s)) = browser s"
      by (simp add: io_bind_def)
    then show ?thesis
      by blast
  qed
qed

lemma extends_finally:
  assumes "extends m" and "extends fin"
  shows "extends (try_finally m fin)"
proof (rule extendsI)
  fix s
  obtain r s1 where m: "m s = (r, s1)"
    by (cases "m s")
  obtain t where t: "trace s1 = trace s @ t" "browser s1 = browser s"
    using extendsD [OF assms(1), of s] m by auto
  obtain u where u: "trace (snd (fin s1)) = trace s1 @ u" "browser (snd (fin s1)) = browser s1"
    using extendsD [OF assms(2)] by blast
  have "trace (snd (try_finally m fin s)) = trace s @ (t @ u)
      \<and> browser (snd (try_finally m fin s)) = browser s"
    using m t u by (auto simp: try_finally_def split: prod.splits sum.splits)
  then show "\<exists>t. trace (snd (try_finally m fin s)) = trace s @ t
                \<and> browser (snd (try_finally m fin s)) = browser s"
    by blast
qed

lemma extends_all2:
  assumes "extends p" and "extends q"
  shows "extends (promise_all2 p q)"
proof (rule extendsI)
  fix s
  obtain r1 s1 where p: "p s = (r1, s1)"
    by (cases "p s")
  obtain r2 s2 where q: "q s1 = (r2, s2)"
    by (cases "q s1")
  obtain t where t: "trace s1 = trace s @ t" "browser s1 = browser s"
    using extendsD [OF assms(1), of s] p by auto
  obtain u where u: "trace s2 = trace s1 @ u" "browser s2 = browser s1"
    using extendsD [OF assms(2), of s1] q by auto
  have "trace (snd (promise_all2 p q s)) = trace s @ (t @ u)
      \<and> browser (snd (promise_all2 p q s)) = browser s"
    using p q t u by (auto simp: promise_all2_def split: sum.splits)
  then show "\<exists>t. trace (snd (promise_all2 p q s)) = trace s @ t
                \<and> browser (snd (promise_all2 p q s)) = browser s"
    by blast
qed

lemma io_bind_Inr: "m s = (Inr x, s1) \<Longrightarrow> io_bind m f s = f x s1"
  by (simp add: io_bind_def)

lemma extends_call: "extends (call e ok msg)"
  unfolding call_def by (rule extends_bind [OF extends_emit]) (rule extends_step)

lemma extends_query: "extends (GraphQLClient_query q response)"
  unfolding GraphQLClient_query_def
  by (rule extends_bind [OF extends_emit])
     (auto split: sum.splits intro: extends_throw extends_return)

lemma extends_getProblemDetails: "extends (getProblemDetails env slug)"
  unfolding getProblemDetails_def
  by (intro extends_bind extends_next_fetch extends_all2 extends_query)
     (auto intro: extends_return)

lemma extends_scrape:
  "extends (io_bind (call NewPage a ''browser.newPage'')
          (\<lambda>_. try_finally
                  (io_bind (step b ''page.setUserAgent'')
                     (\<lambda>_. io_bind (step c ''page.setViewport'')
                     (\<lambda>_. io_bind (step d ''page.goto'')
                     (\<lambda>_. io_bind (step e ''page.waitForSelector'')
                     (\<lambda>_. case ev of
                             Inl err \<Rightarrow> io_throw err
                           | Inr None \<Rightarrow>
                               io_throw (LeetCodeError ''Failed to extract daily challenge slug'')
                           | Inr (Some slug) \<Rightarrow>
                               if slug = []
                               then io_throw
                                      (LeetCodeError ''Failed to extract daily challenge slug'')
                               else io_return slug)))))
                  (call PageClose f ''page.close'')))"
  by (intro extends_bind extends_finally extends_call extends_step)
     (auto split: sum.splits option.splits intro: extends_throw extends_return)

text \<open>
  The second script tears the browser down: when the launch succeeds,
  \<open>getDailyChallengeViaPuppeteer\<close> ends, on every path, with the call of
  \<open>browser.close()\<close>.
\<close>

lemma second_script_closes_browser:
  assumes "launch_ok env"
  shows "\<exists>t. trace (snd (getDailyChallengeViaPuppeteer env s))
               = trace s @ Launch # t @ [BrowserClose]"
proof -
  let ?s1 = "s\<lparr>trace := trace s @ [Launch], browser := True\<rparr>"
  let ?rest = "io_bind (PuppeteerScraper_getDailyChallenge env)
          (\<lambda>slug. io_bind (getProblemDetails env slug)
          (\<lambda>details. io_return \<lparr>dc_questionId = questionId details,
                                  dc_title = title details,
                                  dc_titleSlug = titleSlug details,
                                  dc_difficulty = difficulty details\<rparr>))"
  have init: "PuppeteerScraper_initialize env s = (Inr (), ?s1)"
    using assms by (simp add: PuppeteerScraper_initialize_def io_defs)
  have scrape: "extends (PuppeteerScraper_getDailyChallenge env)"
  proof (rule extendsI)
    fix s2
    show "\<exists>t. trace (snd (PuppeteerScraper_getDailyChallenge env s2)) = trace s2 @ t
              \<and> browser (snd (PuppeteerScraper_getDailyChallenge env s2)) = browser s2"
      using extendsD [OF extends_scrape [where a = "newPage_ok env"
            and b = "setUserAgent_ok env" and c = "setViewport_ok env" and d = "goto_ok env"
            and e = "waitForSelector_ok env" and ev = "evaluate env"
            and f = "page_close_ok env"], of s2]
      by (cases "browser s2") (auto simp: PuppeteerScraper_getDailyChallenge_def io_throw_def)
  qed
  have "extends ?rest"
    by (intro extends_bind scrape extends_getProblemDetails extends_return)
  then obtain t where t: "trace (snd (?rest ?s1)) = trace ?s1 @ t"
    "browser (snd (?rest ?s1)) = browser ?s1"
    using extendsD by blast
  obtain r s2 where rest: "?rest ?s1 = (r, s2)"
    by (cases "?rest ?s1")
  with t have s2: "trace s2 = trace s @ Launch # t" "browser s2"
    by simp_all
  have body: "io_bind (PuppeteerScraper_initialize env) (\<lambda>_. ?rest) s = (r, s2)"
    using io_bind_Inr [where m = "PuppeteerScraper_initialize env" and s = s
        and f = "\<lambda>_. ?rest", OF init] rest
    by simp
  obtain u s3 where fin: "PuppeteerScraper_cleanup env s2 = (u, s3)"
    by (cases "PuppeteerScraper_cleanup env s2")
  have "trace (snd (PuppeteerScraper_cleanup env s2)) = trace s2 @ [BrowserClose]"
    using s2(2) by (simp add: PuppeteerScraper_cleanup_def io_defs)
  with fin s2(1) have s3: "trace s3 = trace s @ Launch # t @ [BrowserClose]"
    by simp
  have "snd (getDailyChallengeViaPuppeteer env s) = s3"
    using body fin
    by (cases u) (simp_all add: getDailyChallengeViaPuppeteer_def try_finally_def)
  with s3 have "trace (snd (getDailyChallengeViaPuppeteer env s))
               = trace s @ Launch # t @ [BrowserClose]"
    by simp
  then show ?thesis
    by blast
qed

text \<open>
  The second script isolates a failure: \<open>FileManager.createSolutionFiles\<close> never fails,
  looks at every language of the table in turn, logs an error for the languages whose
  \<open>mkdir\<close> or \<open>writeFile\<close> fails and for no other, and lists no path whose write failed.
\<close>

lemma second_script_isolates_failures:
  "\<exists>r s' t. createSolutionFiles lc env details s = (Inr r, s') \<and> trace s' = trace s @ t
     \<and> accessed t = map (\<lambda>x. filePathOf lc details (fst x)) LANGUAGE_EXTENSIONS
     \<and> logged_errors t = languages_with lc env details s LANGUAGE_EXTENSIONS Failed
     \<and> (\<forall>x \<in> set LANGUAGE_EXTENSIONS.
           write_fails env (filePathOf lc details (fst x))
           \<longrightarrow> filePathOf lc details (fst x) \<notin> set (created r) \<union> set (updated r))"
proof -
  let ?E = LANGUAGE_EXTENSIONS
  let ?t = "concat (map (\<lambda>x. language_events lc env details s (fst x)) ?E)"
  obtain r s' where run: "createSolutionFiles lc env details s = (Inr r, s')"
    and c: "created r = languages_with lc env details s ?E Created"
    and u: "updated r = languages_with lc env details s ?E Updated"
    and t: "trace s' = trace s @ ?t"
    using createSolutionFiles_closed [of lc env details s] by blast
  have w: "p \<notin> set (created r) \<union> set (updated r)" if "write_fails env p" for p
  proof
    assume "p \<in> set (created r) \<union> set (updated r)"
    then obtain x where "p = filePathOf lc details (fst x)"
      and "language_outcome lc env details s (fst x) \<in> {Created, Updated}"
      unfolding c u by (auto simp: languages_with_def)
    with that show False
      by (auto simp: language_outcome_def outcome_of_def split: if_splits)
  qed
  from run t accessed_languages [of lc env details s ?E]
    logged_errors_languages [of lc env details s ?E] w
  show ?thesis
    by blast
qed


end
